theory Spec2Isabelle
  imports Complex_Main
begin

section \<open>Numbers and arrays of the notebook\<close>

text \<open>
  The notebook \<^verbatim>\<open>Linear_Models.ipynb\<close> computes with numpy's 64-bit floats. The model
  idealises a finite float as a \<^typ>\<open>real\<close> (no rounding, no overflow) and keeps the one
  thing numpy does that real arithmetic does not: a division by zero and the square root
  of a negative number do not raise, they give \<^verbatim>\<open>inf\<close> or \<^verbatim>\<open>nan\<close> (with a
  RuntimeWarning). Both are the value \<open>NotFinite\<close>; every operation the notebook applies
  afterwards (product, sum, square root) gives \<^verbatim>\<open>inf\<close> or \<^verbatim>\<open>nan\<close> again on such
  an operand. The only divisors of the cells are \<open>n - p\<close> and its square root, which are
  finite or \<^verbatim>\<open>nan\<close>, never \<^verbatim>\<open>inf\<close>.
\<close>

datatype npfloat = Finite real | NotFinite

fun npf_times :: "npfloat \<Rightarrow> npfloat \<Rightarrow> npfloat" where
  "npf_times (Finite a) (Finite b) = Finite (a * b)"
| "npf_times _ _ = NotFinite"

fun npf_plus :: "npfloat \<Rightarrow> npfloat \<Rightarrow> npfloat" where
  "npf_plus (Finite a) (Finite b) = Finite (a + b)"
| "npf_plus _ _ = NotFinite"

fun npf_divide :: "npfloat \<Rightarrow> npfloat \<Rightarrow> npfloat" where
  "npf_divide (Finite a) (Finite b) = (if b = 0 then NotFinite else Finite (a / b))"
| "npf_divide _ _ = NotFinite"

fun npf_sqrt :: "npfloat \<Rightarrow> npfloat" where
  "npf_sqrt (Finite a) = (if a < 0 then NotFinite else Finite (sqrt a))"
| "npf_sqrt NotFinite = NotFinite"

text \<open>
  Comparison of two finite results, as \<^verbatim>\<open><\<close> and \<^verbatim>\<open><=\<close> on floats. A
  comparison with \<^verbatim>\<open>nan\<close> is false; \<open>NotFinite\<close> does not tell \<^verbatim>\<open>inf\<close> from
  \<^verbatim>\<open>nan\<close>, so neither comparison holds of it.
\<close>

fun npf_less :: "npfloat \<Rightarrow> npfloat \<Rightarrow> bool" where
  "npf_less (Finite a) (Finite b) = (a < b)"
| "npf_less _ _ = False"

fun npf_le :: "npfloat \<Rightarrow> npfloat \<Rightarrow> bool" where
  "npf_le (Finite a) (Finite b) = (a \<le> b)"
| "npf_le _ _ = False"

text \<open>The exceptions the statements of the modelled cells raise.\<close>

datatype py_error = ZeroDivisionError | ValueError | IndexError

type_synonym vec = "real list"

text \<open>A two-dimensional array is the list of its rows.\<close>

type_synonym matrix = "real list list"

text \<open>\<^verbatim>\<open>A.T\<close>\<close>

definition T :: "matrix \<Rightarrow> matrix" where
  "T A = (case A of [] \<Rightarrow> []
          | r # _ \<Rightarrow> map (\<lambda>j. map (\<lambda>row. row ! j) A) [0..<length r])"

definition dot :: "vec \<Rightarrow> vec \<Rightarrow> real" where
  "dot u v = sum_list (map2 (*) u v)"

text \<open>\<^verbatim>\<open>A @ B\<close>\<close>

definition matmul :: "matrix \<Rightarrow> matrix \<Rightarrow> matrix" where
  "matmul A B = map (\<lambda>row. map (dot row) (T B)) A"

text \<open>\<^verbatim>\<open>np.diag(w)\<close> of a one-dimensional array\<close>

definition diag :: "vec \<Rightarrow> matrix" where
  "diag w = map (\<lambda>i. map (\<lambda>j. if i = j then w ! i else 0) [0..<length w]) [0..<length w]"

text \<open>\<^verbatim>\<open>np.linalg.norm(r, 2)\<close> of a one-dimensional array\<close>

definition linalg_norm :: "vec \<Rightarrow> real" where
  "linalg_norm r = sqrt (\<Sum>x\<leftarrow>r. x\<^sup>2)"


section \<open>The cells of the univariate model\<close>

text \<open>
  The coefficients come from a library fit (\<^verbatim>\<open>stats.linregress\<close>,
  \<^verbatim>\<open>LinearRegression().fit\<close>); the cells take them as numbers \<open>slope\<close> and
  \<open>intercept\<close>. The cells of the multivariate model repeat the statements below
  on a design matrix of four columns, with the residuals \<^verbatim>\<open>y - x_design @ coef_.T\<close>.

  \<^verbatim>\<open>residuals = y_row - (x_row * slope + intercept)\<close>
\<close>

definition residuals :: "vec \<Rightarrow> vec \<Rightarrow> real \<Rightarrow> real \<Rightarrow> vec" where
  "residuals x_row y_row slope intercept =
     map2 (\<lambda>y x. y - (x * slope + intercept)) y_row x_row"

text \<open>\<^verbatim>\<open>s_value = np.linalg.norm(residuals, 2) / np.sqrt(n - p)\<close>\<close>

definition s_value :: "vec \<Rightarrow> int \<Rightarrow> int \<Rightarrow> npfloat" where
  "s_value r n p =
     npf_divide (Finite (linalg_norm r)) (npf_sqrt (Finite (of_int (n - p))))"

text \<open>
  \<^verbatim>\<open>s_squared_value = sum(y_weights * residuals**2) / (n - p)\<close>

  \<^verbatim>\<open>sum\<close> is Python's: over an array with an element it is a numpy float, and the
  division by \<open>n - p = 0\<close> gives \<^verbatim>\<open>inf\<close> or \<^verbatim>\<open>nan\<close>; over an empty array it is
  the int \<open>0\<close>, and \<open>0 / 0\<close> raises.
\<close>

definition s_squared_value :: "vec \<Rightarrow> vec \<Rightarrow> int \<Rightarrow> int \<Rightarrow> py_error + npfloat" where
  "s_squared_value y_weights r n p =
     (if zip y_weights r = [] \<and> n - p = 0 then Inl ZeroDivisionError
      else Inr (npf_divide (Finite (\<Sum>(w, x)\<leftarrow>zip y_weights r. w * x\<^sup>2))
                           (Finite (of_int (n - p)))))"

text \<open>\<^verbatim>\<open>y_estimated = x_to_predict * slope + intercept\<close>\<close>

definition y_estimated :: "real \<Rightarrow> real \<Rightarrow> real \<Rightarrow> real" where
  "y_estimated x_to_predict slope intercept = x_to_predict * slope + intercept"

text \<open>
  \<^verbatim>\<open>inner_sqrt_term = (x_to_predict_col_vec.T @ np.linalg.inv(x_design.T @ x_design)
     @ x_to_predict_col_vec)[0,0]\<close>

  \<^verbatim>\<open>np.linalg.inv\<close> is numpy's; it is the parameter \<open>linalg_inv\<close>. The query
  \<open>x_to_predict_col_vec\<close> is a matrix of one column.
\<close>

definition inner_sqrt_term :: "(matrix \<Rightarrow> matrix) \<Rightarrow> matrix \<Rightarrow> matrix \<Rightarrow> real" where
  "inner_sqrt_term linalg_inv x_design x_to_predict_col_vec =
     matmul (matmul (T x_to_predict_col_vec) (linalg_inv (matmul (T x_design) x_design)))
            x_to_predict_col_vec ! 0 ! 0"

text \<open>
  \<^verbatim>\<open>inner_sqrt_term = (x_to_predict_col_vec.T @ np.linalg.inv(x_design.T @
     np.diag(y_weights) @ x_design) @ x_to_predict_col_vec)[0,0]\<close>
\<close>

definition inner_sqrt_term_weighted ::
  "(matrix \<Rightarrow> matrix) \<Rightarrow> matrix \<Rightarrow> vec \<Rightarrow> matrix \<Rightarrow> real" where
  "inner_sqrt_term_weighted linalg_inv x_design y_weights x_to_predict_col_vec =
     matmul (matmul (T x_to_predict_col_vec)
                    (linalg_inv (matmul (matmul (T x_design) (diag y_weights)) x_design)))
            x_to_predict_col_vec ! 0 ! 0"

text \<open>
  \<^verbatim>\<open>one_sided_CL_magnitude = stats.t.ppf(q = 1-(alpha/2), df = n-p) * s_value
     * np.sqrt(inner_sqrt_term)\<close>

  \<^verbatim>\<open>stats.t.ppf\<close> is scipy's; it is the parameter \<open>t_ppf\<close>.
\<close>

definition one_sided_CL_magnitude ::
  "(real \<Rightarrow> int \<Rightarrow> real) \<Rightarrow> real \<Rightarrow> int \<Rightarrow> int \<Rightarrow> npfloat \<Rightarrow> real \<Rightarrow> npfloat" where
  "one_sided_CL_magnitude t_ppf alpha n p s h =
     npf_times (npf_times (Finite (t_ppf (1 - alpha / 2) (n - p))) s) (npf_sqrt (Finite h))"

text \<open>
  \<^verbatim>\<open>one_sided_PL_magnitude = stats.t.ppf(q = 1-alpha/2, df = n-p) * s_value
     * np.sqrt(1+inner_sqrt_term)\<close>
\<close>

definition one_sided_PL_magnitude ::
  "(real \<Rightarrow> int \<Rightarrow> real) \<Rightarrow> real \<Rightarrow> int \<Rightarrow> int \<Rightarrow> npfloat \<Rightarrow> real \<Rightarrow> npfloat" where
  "one_sided_PL_magnitude t_ppf alpha n p s h =
     npf_times (npf_times (Finite (t_ppf (1 - alpha / 2) (n - p))) s)
               (npf_sqrt (Finite (1 + h)))"

text \<open>
  \<^verbatim>\<open>one_sided_CL_magnitude = stats.t.ppf(q = 1-(alpha/2), df = n-p)
     * np.sqrt(s_squared_value * inner_sqrt_term)\<close>
\<close>

definition one_sided_CL_magnitude_weighted ::
  "(real \<Rightarrow> int \<Rightarrow> real) \<Rightarrow> real \<Rightarrow> int \<Rightarrow> int \<Rightarrow> npfloat \<Rightarrow> real \<Rightarrow> npfloat" where
  "one_sided_CL_magnitude_weighted t_ppf alpha n p s2 h =
     npf_times (Finite (t_ppf (1 - alpha / 2) (n - p)))
               (npf_sqrt (npf_times s2 (Finite h)))"

text \<open>
  \<^verbatim>\<open>one_sided_PL_magnitude = stats.t.ppf(q = 1-alpha/2, df = n-p)
     * np.sqrt(s_squared_value + s_squared_value * inner_sqrt_term)\<close>
\<close>

definition one_sided_PL_magnitude_weighted ::
  "(real \<Rightarrow> int \<Rightarrow> real) \<Rightarrow> real \<Rightarrow> int \<Rightarrow> int \<Rightarrow> npfloat \<Rightarrow> real \<Rightarrow> npfloat" where
  "one_sided_PL_magnitude_weighted t_ppf alpha n p s2 h =
     npf_times (Finite (t_ppf (1 - alpha / 2) (n - p)))
               (npf_sqrt (npf_plus s2 (npf_times s2 (Finite h))))"



section \<open>The external functions and the notions the properties are stated with\<close>

text \<open>
  A matrix of shape \<open>(r, c)\<close>: \<open>r\<close> rows, each of length \<open>c\<close>.
\<close>

definition is_mat :: "nat \<Rightarrow> nat \<Rightarrow> matrix \<Rightarrow> bool" where
  "is_mat r c A \<longleftrightarrow> length A = r \<and> (\<forall>row\<in>set A. length row = c)"

text \<open>The identity matrix, \<^verbatim>\<open>np.eye(k)\<close>.\<close>

definition eye :: "nat \<Rightarrow> matrix" where
  "eye k = map (\<lambda>i. map (\<lambda>j. if i = j then 1 else 0) [0..<k]) [0..<k]"

text \<open>
  What \<^verbatim>\<open>np.linalg.inv\<close> returns on an invertible \<open>k\<close> by \<open>k\<close> matrix \<open>A\<close>: a
  matrix \<open>M\<close> of the same shape with \<open>A @ M = M @ A = I\<close>. (On a singular matrix it
  raises \<^verbatim>\<open>LinAlgError\<close>; the properties below that use the inverse assume
  \<open>is_inverse\<close> of what \<open>linalg_inv\<close> returns, so they speak of invertible matrices
  only.)
\<close>

definition is_inverse :: "nat \<Rightarrow> matrix \<Rightarrow> matrix \<Rightarrow> bool" where
  "is_inverse k A M \<longleftrightarrow> is_mat k k M \<and> matmul A M = eye k \<and> matmul M A = eye k"

text \<open>
  The data of a cell, as the notebook creates them: a design matrix of \<open>n\<close> rows and \<open>p\<close>
  columns with \<open>0 < p < n\<close>, a query of \<open>p\<close> entries in one column, \<open>n\<close> residuals and \<open>n\<close>
  strictly positive weights; and \<open>linalg_inv\<close> returns the inverse of the two matrices the
  cells pass to it. (numpy raises on arrays whose shapes do not fit; the model's
  \<open>map2\<close> and \<open>dot\<close> would stop at the shorter one. The properties are stated for data
  of fitting shapes.)
\<close>

definition cell_inputs ::
  "(matrix \<Rightarrow> matrix) \<Rightarrow> matrix \<Rightarrow> vec \<Rightarrow> matrix \<Rightarrow> vec \<Rightarrow> int \<Rightarrow> int \<Rightarrow> bool" where
  "cell_inputs linalg_inv x_design y_weights q r n p \<longleftrightarrow>
     0 < p \<and> p < n \<and>
     is_mat (nat n) (nat p) x_design \<and> is_mat (nat p) 1 q \<and>
     length r = nat n \<and> length y_weights = nat n \<and> (\<forall>w\<in>set y_weights. 0 < w) \<and>
     is_inverse (nat p) (matmul (T x_design) x_design)
       (linalg_inv (matmul (T x_design) x_design)) \<and>
     is_inverse (nat p) (matmul (matmul (T x_design) (diag y_weights)) x_design)
       (linalg_inv (matmul (matmul (T x_design) (diag y_weights)) x_design))"

text \<open>
  What is used of \<^verbatim>\<open>stats.t.ppf(q, df)\<close>, the quantile function of Student's t
  distribution with \<open>df\<close> degrees of freedom: the distribution is symmetric about \<open>0\<close>,
  so the median is \<open>0\<close>, and the quantile function is strictly increasing on the open
  interval from 0 to 1.
\<close>

definition symmetric_quantile :: "(real \<Rightarrow> int \<Rightarrow> real) \<Rightarrow> int \<Rightarrow> bool" where
  "symmetric_quantile t_ppf df \<longleftrightarrow>
     t_ppf (1 / 2) df = 0 \<and>
     (\<forall>q1 q2. 0 < q1 \<and> q1 < q2 \<and> q2 < 1 \<longrightarrow> t_ppf q1 df < t_ppf q2 df)"

text \<open>
  Two instances of the external functions for the examples. With one degree of freedom Student's t distribution is
  the Cauchy distribution, whose quantile function is \<open>tan (pi * (q - 1/2))\<close>; the
  examples have \<open>n - p = 1\<close>. The inverse of a 2 by 2 matrix is written out.
\<close>

definition t_ppf_df1 :: "real \<Rightarrow> int \<Rightarrow> real" where
  "t_ppf_df1 q df = tan (pi * (q - 1 / 2))"

definition inv_2x2 :: "matrix \<Rightarrow> matrix" where
  "inv_2x2 A = (case A of
      [[a, b], [c, d]] \<Rightarrow>
        [[d / (a * d - b * c), - b / (a * d - b * c)],
         [- c / (a * d - b * c), a / (a * d - b * c)]]
    | _ \<Rightarrow> A)"


section \<open>The design matrix of the multivariate model\<close>

text \<open>
  The univariate model takes its design matrix from statsmodels,
  \<^verbatim>\<open>tools.add_constant(x)\<close>, a library function that is not modelled. The multivariate
  model builds it itself.

  \<^verbatim>\<open>np.ones(shape=(n,p))\<close>
\<close>

definition ones :: "nat \<Rightarrow> nat \<Rightarrow> matrix" where
  "ones n p = replicate n (replicate p 1)"

text \<open>
  \<^verbatim>\<open>A[:,j] = v\<close> for an array \<open>A\<close> of \<open>ncols\<close> columns and a one-dimensional array
  \<open>v\<close>: a column index out of range raises \<^verbatim>\<open>IndexError\<close>; \<open>v\<close> is written down
  the column when it has one entry per row, broadcast when it has a single entry, and any
  other length raises \<^verbatim>\<open>ValueError\<close>. A numpy array carries its shape; the list of rows
  does not when there is no row, so the number of columns is an argument. The assignment
  mutates \<open>A\<close>; the model returns the new matrix.
\<close>

definition set_col :: "nat \<Rightarrow> matrix \<Rightarrow> nat \<Rightarrow> vec \<Rightarrow> py_error + matrix" where
  "set_col ncols A j v =
     (if ncols \<le> j then Inl IndexError
      else if length v = length A then Inr (map2 (\<lambda>row x. row[j := x]) A v)
      else if length v = 1 then Inr (map (\<lambda>row. row[j := v ! 0]) A)
      else Inl ValueError)"

text \<open>
  \<^verbatim>\<open>x_design = np.ones(shape=(n,p))\<close>

  \<^verbatim>\<open>x_design[:,1] = ...\<close>

  \<^verbatim>\<open>x_design[:,2] = ...\<close>

  \<^verbatim>\<open>x_design[:,3] = ...\<close>

  The three right-hand sides are the predictor columns \<open>a\<close>, \<open>b\<close> and \<open>c\<close>; the cell
  sets \<open>p = 4\<close>.
\<close>

definition x_design_multivariate :: "nat \<Rightarrow> nat \<Rightarrow> vec \<Rightarrow> vec \<Rightarrow> vec \<Rightarrow> py_error + matrix" where
  "x_design_multivariate n p a b c =
     (case set_col p (ones n p) 1 a of Inl e \<Rightarrow> Inl e | Inr x1 \<Rightarrow>
      case set_col p x1 2 b of Inl e \<Rightarrow> Inl e | Inr x2 \<Rightarrow>
      set_col p x2 3 c)"


section \<open>The coefficients of the fit\<close>

text \<open>The product of a number and a matrix, \<^verbatim>\<open>k * A\<close>.\<close>

definition smult :: "real \<Rightarrow> matrix \<Rightarrow> matrix" where
  "smult k A = map (map ((*) k)) A"

text \<open>
  Modelled from the spec: the coefficient vector of \<open>LeastSquaresSolver.fit\<close>. The notebook
  has no code for it: every cell takes its coefficients from a library
  (\<^verbatim>\<open>stats.linregress\<close>, \<^verbatim>\<open>LinearRegression().fit\<close>, \<^verbatim>\<open>OLS\<close>, \<^verbatim>\<open>WLS\<close>). The
  spec, section 4.2: let \<open>X\<close> be the design matrix, \<open>y\<close> the observations, \<open>W\<close> the
  diagonal matrix of weights (identity if unweighted); the coefficients are
  \<open>(X\<^sup>T W X)\<^sup>-\<^sup>1 X\<^sup>T W y\<close>. The observations are a matrix of one column.
\<close>

definition normal_equations_coefficients ::
  "(matrix \<Rightarrow> matrix) \<Rightarrow> matrix \<Rightarrow> matrix \<Rightarrow> vec option \<Rightarrow> matrix" where
  "normal_equations_coefficients linalg_inv X y weights =
     (let W = (case weights of None \<Rightarrow> eye (length X) | Some w \<Rightarrow> diag w)
      in matmul (linalg_inv (matmul (matmul (T X) W) X)) (matmul (matmul (T X) W) y))"


section \<open>Residual variance\<close>

lemma sum_squares_nonneg: "0 \<le> (\<Sum>x\<leftarrow>r. (x::real)\<^sup>2)"
  by (rule sum_list_nonneg) auto

lemma linalg_norm_nonneg: "0 \<le> linalg_norm r"
  by (simp add: linalg_norm_def sum_squares_nonneg)

lemma linalg_norm_squared: "(linalg_norm r)\<^sup>2 = (\<Sum>x\<leftarrow>r. x\<^sup>2)"
  by (simp add: linalg_norm_def sum_squares_nonneg)

lemma s_value_finite:
  assumes "p < n"
  shows "s_value r n p = Finite (linalg_norm r / sqrt (of_int (n - p)))"
  using assms by (simp add: s_value_def)

lemma s_squared_value_finite:
  assumes "p < n"
  shows "s_squared_value w r n p
         = Inr (Finite ((\<Sum>(w, x)\<leftarrow>zip w r. w * x\<^sup>2) / of_int (n - p)))"
  using assms by (simp add: s_squared_value_def)

lemma weighted_sum_squares_nonneg:
  assumes "\<forall>a\<in>set w. 0 \<le> (a::real)"
  shows "0 \<le> (\<Sum>(a, x)\<leftarrow>zip w r. a * (x::real)\<^sup>2)"
proof (rule sum_list_nonneg)
  fix v assume "v \<in> set (map (\<lambda>(a, x). a * x\<^sup>2) (zip w r))"
  then obtain a x where ax: "(a, x) \<in> set (zip w r)" and v: "v = a * x\<^sup>2"
    by auto
  from ax have "a \<in> set w" by (rule set_zip_leftD)
  with assms have "0 \<le> a" by simp
  with v show "0 \<le> v" by simp
qed

text \<open>
  C3. With \<open>n\<close> observations and weights and fewer parameters, \<open>p < n\<close>, the residual scale
  the unweighted cell computes from the residuals \<open>y - (x * slope + intercept)\<close> is a
  finite, non-negative number whose square is the sum of the squared residuals divided by
  \<open>n - p\<close>, and the weighted cell's \<open>s_squared_value\<close> is the sum of the weighted squared
  residuals divided by \<open>n - p\<close>.
\<close>

theorem residual_variance_estimate:
  assumes "p < n"
    and "length x_row = nat n" and "length y_row = nat n" and "length y_weights = nat n"
  shows "(\<exists>s. s_value (residuals x_row y_row slope intercept) n p = Finite s \<and> 0 \<le> s \<and>
              s\<^sup>2 = (\<Sum>(y, x)\<leftarrow>zip y_row x_row. (y - (x * slope + intercept))\<^sup>2)
                    / of_int (n - p))
       \<and> s_squared_value y_weights (residuals x_row y_row slope intercept) n p
           = Inr (Finite ((\<Sum>(w, r)\<leftarrow>zip y_weights (residuals x_row y_row slope intercept).
                              w * r\<^sup>2) / of_int (n - p)))"
proof -
  let ?r = "residuals x_row y_row slope intercept"
  let ?s = "linalg_norm ?r / sqrt (of_int (n - p))"
  have d: "0 < (of_int (n - p) :: real)" using assms(1) by simp
  have sq: "(\<Sum>x\<leftarrow>?r. x\<^sup>2) = (\<Sum>(y, x)\<leftarrow>zip y_row x_row. (y - (x * slope + intercept))\<^sup>2)"
    by (simp add: residuals_def comp_def case_prod_unfold)
  have "?s\<^sup>2 = (linalg_norm ?r)\<^sup>2 / of_int (n - p)"
    using d by (simp add: power_divide)
  then have "?s\<^sup>2 = (\<Sum>(y, x)\<leftarrow>zip y_row x_row. (y - (x * slope + intercept))\<^sup>2)
                 / of_int (n - p)"
    by (simp only: linalg_norm_squared sq)
  moreover have "0 \<le> ?s"
    using d by (simp add: linalg_norm_nonneg)
  ultimately have "\<exists>s. s_value ?r n p = Finite s \<and> 0 \<le> s \<and>
      s\<^sup>2 = (\<Sum>(y, x)\<leftarrow>zip y_row x_row. (y - (x * slope + intercept))\<^sup>2) / of_int (n - p)"
    using s_value_finite [OF assms(1), of ?r] by blast
  then show ?thesis
    using s_squared_value_finite [OF assms(1)] by blast
qed

theorem residual_variance_estimate_witness:
  "(\<exists>s. s_value (residuals [0, 1, 2] [1, 3, 6] 2 1) 3 2 = Finite s \<and> 0 \<le> s \<and> s\<^sup>2 = 1)
   \<and> s_squared_value [2, 2, 2] (residuals [0, 1, 2] [1, 3, 6] 2 1) 3 2 = Inr (Finite 2)"
proof -
  have h: "(2::int) < 3" by simp
  have x: "length [0, 1, 2 :: real] = nat 3" and y: "length [1, 3, 6 :: real] = nat 3"
    and w: "length [2, 2, 2 :: real] = nat 3" by simp_all
  show ?thesis
    using residual_variance_estimate [OF h x y w, of 2 1]
    by (simp add: residuals_def)
qed


section \<open>Matrices by their entries\<close>

lemma is_mat_row: "is_mat r c A \<Longrightarrow> i < r \<Longrightarrow> length (A ! i) = c"
  by (simp add: is_mat_def)

lemma is_mat_length: "is_mat r c A \<Longrightarrow> length A = r"
  by (simp add: is_mat_def)

lemma T_unfold:
  assumes "is_mat r c A" "0 < r"
  shows "T A = map (\<lambda>j. map (\<lambda>row. row ! j) A) [0..<c]"
proof -
  from assms obtain a as where A: "A = a # as" by (cases A) (auto simp: is_mat_def)
  with assms have "length a = c" by (simp add: is_mat_def)
  then show ?thesis by (simp add: T_def A)
qed

lemma T_is_mat:
  assumes "is_mat r c A" "0 < r"
  shows "is_mat c r (T A)"
  using assms by (simp add: T_unfold [OF assms] is_mat_def)

lemma T_nth:
  assumes "is_mat r c A" "i < r" "j < c"
  shows "T A ! j ! i = A ! i ! j"
proof -
  have "0 < r" using assms(2) by simp
  from T_unfold [OF assms(1) this] assms show ?thesis
    by (simp add: is_mat_def)
qed

lemma dot_sum:
  assumes "length u = length v"
  shows "dot u v = (\<Sum>k<length u. u ! k * v ! k)"
proof -
  have "dot u v = (\<Sum>k = 0..<length (map2 (*) u v). map2 (*) u v ! k)"
    unfolding dot_def by (rule sum_list_sum_nth)
  also have "\<dots> = (\<Sum>k = 0..<length u. u ! k * v ! k)"
    using assms by (intro sum.cong) simp_all
  finally show ?thesis by (simp add: atLeast0LessThan)
qed

lemma matmul_is_mat:
  assumes "is_mat r m A" "is_mat m c B" "0 < m"
  shows "is_mat r c (matmul A B)"
proof -
  have "length (T B) = c" using T_is_mat [OF assms(2,3)] by (simp add: is_mat_def)
  with assms(1) show ?thesis by (simp add: matmul_def is_mat_def)
qed

lemma matmul_nth:
  assumes "is_mat r m A" "is_mat m c B" "0 < m" "i < r" "j < c"
  shows "matmul A B ! i ! j = (\<Sum>k<m. A ! i ! k * B ! k ! j)"
proof -
  have TB: "is_mat c m (T B)" using assms(2,3) by (rule T_is_mat)
  have lA: "length A = r" and lAi: "length (A ! i) = m"
    using assms(1,4) by (simp_all add: is_mat_def)
  have lT: "length (T B) = c" and lTj: "length (T B ! j) = m"
    using TB assms(5) by (simp_all add: is_mat_def)
  have "matmul A B ! i ! j = dot (A ! i) (T B ! j)"
    using assms(4,5) lA lT by (simp add: matmul_def)
  also have "\<dots> = (\<Sum>k<m. A ! i ! k * T B ! j ! k)"
    using lAi lTj by (simp add: dot_sum)
  also have "\<dots> = (\<Sum>k<m. A ! i ! k * B ! k ! j)"
    using assms(2,5) by (intro sum.cong) (simp_all add: T_nth)
  finally show ?thesis .
qed

lemma diag_is_mat: "is_mat (length w) (length w) (diag w)"
  by (simp add: diag_def is_mat_def)

lemma diag_nth:
  assumes "i < length w" "j < length w"
  shows "diag w ! i ! j = (if i = j then w ! i else 0)"
  using assms by (simp add: diag_def)

lemma eye_is_mat: "is_mat k k (eye k)"
  by (simp add: eye_def is_mat_def)

lemma eye_nth:
  assumes "i < k" "j < k"
  shows "eye k ! i ! j = (if i = j then 1 else 0)"
  using assms by (simp add: eye_def)

lemma mat_eqI:
  assumes "is_mat r c A" "is_mat r c B"
    and "\<And>i j. i < r \<Longrightarrow> j < c \<Longrightarrow> A ! i ! j = B ! i ! j"
  shows "A = B"
proof (rule nth_equalityI)
  show "length A = length B" using assms(1,2) by (simp add: is_mat_def)
next
  fix i assume i: "i < length A"
  then have ir: "i < r" using assms(1) by (simp add: is_mat_def)
  show "A ! i = B ! i"
  proof (rule nth_equalityI)
    show "length (A ! i) = length (B ! i)"
      using assms(1,2) ir by (simp add: is_mat_def)
  next
    fix j assume "j < length (A ! i)"
    then have "j < c" using assms(1) ir by (simp add: is_mat_def)
    with ir show "A ! i ! j = B ! i ! j" by (rule assms(3))
  qed
qed

lemma sum_delta_left:
  assumes "a < (p::nat)"
  shows "(\<Sum>c<p. (if a = c then 1 else 0) * f c) = (f a :: real)"
proof -
  have "(\<Sum>c<p. (if a = c then 1 else 0) * f c) = (\<Sum>c<p. if c = a then f c else 0)"
    by (intro sum.cong) auto
  also have "\<dots> = f a" using assms by simp
  finally show ?thesis .
qed

lemma weighted_product_nth:
  assumes X: "is_mat n p X" and Y: "is_mat n c Y" and w: "length w = n" and n: "0 < n"
    and a: "a < p" and b: "b < c"
  shows "matmul (matmul (T X) (diag w)) Y ! a ! b = (\<Sum>i<n. X ! i ! a * w ! i * Y ! i ! b)"
proof -
  have TX: "is_mat p n (T X)" using X n by (rule T_is_mat)
  have D: "is_mat n n (diag w)" using diag_is_mat [of w] w by simp
  have TD: "is_mat p n (matmul (T X) (diag w))" using TX D n by (rule matmul_is_mat)
  have e: "matmul (T X) (diag w) ! a ! i = X ! i ! a * w ! i" if i: "i < n" for i
  proof -
    have "matmul (T X) (diag w) ! a ! i = (\<Sum>k<n. T X ! a ! k * diag w ! k ! i)"
      using TX D n a i by (rule matmul_nth)
    also have "\<dots> = (\<Sum>k<n. if k = i then X ! i ! a * w ! i else 0)"
      using X a i w by (intro sum.cong) (auto simp: T_nth diag_nth)
    also have "\<dots> = X ! i ! a * w ! i" using i by simp
    finally show ?thesis .
  qed
  have "matmul (matmul (T X) (diag w)) Y ! a ! b
        = (\<Sum>i<n. matmul (T X) (diag w) ! a ! i * Y ! i ! b)"
    using TD Y n a b by (rule matmul_nth)
  also have "\<dots> = (\<Sum>i<n. X ! i ! a * w ! i * Y ! i ! b)"
    by (intro sum.cong) (simp_all add: e)
  finally show ?thesis .
qed

lemma weighted_gram_nth:
  assumes X: "is_mat n p X" and w: "length w = n" and n: "0 < n"
    and a: "a < p" and b: "b < p"
  shows "matmul (matmul (T X) (diag w)) X ! a ! b = (\<Sum>i<n. X ! i ! a * w ! i * X ! i ! b)"
  using X X w n a b by (rule weighted_product_nth)

lemma gram_nth:
  assumes X: "is_mat n p X" and n: "0 < n" and a: "a < p" and b: "b < p"
  shows "matmul (T X) X ! a ! b = (\<Sum>i<n. X ! i ! a * X ! i ! b)"
proof -
  have TX: "is_mat p n (T X)" using X n by (rule T_is_mat)
  have "matmul (T X) X ! a ! b = (\<Sum>i<n. T X ! a ! i * X ! i ! b)"
    using TX X n a b by (rule matmul_nth)
  also have "\<dots> = (\<Sum>i<n. X ! i ! a * X ! i ! b)"
    using X a by (intro sum.cong) (simp_all add: T_nth)
  finally show ?thesis .
qed


lemma quadratic_form_nth:
  assumes q: "is_mat p 1 q" and M: "is_mat p p M" and p: "0 < p"
  shows "matmul (matmul (T q) M) q ! 0 ! 0 = (\<Sum>b<p. (\<Sum>a<p. q ! a ! 0 * M ! a ! b) * q ! b ! 0)"
proof -
  have Tq: "is_mat 1 p (T q)" using q p by (rule T_is_mat)
  have TM: "is_mat 1 p (matmul (T q) M)" using Tq M p by (rule matmul_is_mat)
  have e: "matmul (T q) M ! 0 ! b = (\<Sum>a<p. q ! a ! 0 * M ! a ! b)" if b: "b < p" for b
  proof -
    have "matmul (T q) M ! 0 ! b = (\<Sum>a<p. T q ! 0 ! a * M ! a ! b)"
      using Tq M p _ b by (rule matmul_nth) simp
    also have "\<dots> = (\<Sum>a<p. q ! a ! 0 * M ! a ! b)"
      using q by (intro sum.cong) (simp_all add: T_nth)
    finally show ?thesis .
  qed
  have "matmul (matmul (T q) M) q ! 0 ! 0 = (\<Sum>b<p. matmul (T q) M ! 0 ! b * q ! b ! 0)"
    using TM q p by (rule matmul_nth) simp_all
  also have "\<dots> = (\<Sum>b<p. (\<Sum>a<p. q ! a ! 0 * M ! a ! b) * q ! b ! 0)"
    by (intro sum.cong) (simp_all add: e)
  finally show ?thesis .
qed

lemma quadratic_form_nonneg:
  fixes X :: "nat \<Rightarrow> nat \<Rightarrow> real" and w q :: "nat \<Rightarrow> real" and M :: "nat \<Rightarrow> nat \<Rightarrow> real"
  assumes inv: "\<And>a c. a < p \<Longrightarrow> c < p \<Longrightarrow>
      (\<Sum>b<p. (\<Sum>i<n. X i a * w i * X i b) * M b c) = (if a = c then 1 else 0)"
    and w: "\<And>i. i < n \<Longrightarrow> 0 \<le> w i"
  shows "0 \<le> (\<Sum>b<p. (\<Sum>a<p. q a * M a b) * q b)"
proof -
  define G where "G a b = (\<Sum>i<n. X i a * w i * X i b)" for a b
  define v where "v a = (\<Sum>b<p. M a b * q b)" for a
  define z where "z i = (\<Sum>a<p. X i a * v a)" for i
  have qa: "q a = (\<Sum>b<p. G a b * v b)" if a: "a < p" for a
  proof -
    have "(\<Sum>b<p. G a b * v b) = (\<Sum>b<p. \<Sum>c<p. G a b * M b c * q c)"
      by (simp add: v_def sum_distrib_left mult.assoc)
    also have "\<dots> = (\<Sum>c<p. \<Sum>b<p. G a b * M b c * q c)"
      by (rule sum.swap)
    also have "\<dots> = (\<Sum>c<p. (\<Sum>b<p. G a b * M b c) * q c)"
      by (simp add: sum_distrib_right)
    also have "\<dots> = (\<Sum>c<p. (if a = c then 1 else 0) * q c)"
      using a by (intro sum.cong) (simp_all add: G_def inv)
    also have "\<dots> = q a" using a by (rule sum_delta_left)
    finally show ?thesis by simp
  qed
  have "(\<Sum>b<p. (\<Sum>a<p. q a * M a b) * q b) = (\<Sum>b<p. \<Sum>a<p. q a * (M a b * q b))"
    by (simp add: sum_distrib_right mult.assoc)
  also have "\<dots> = (\<Sum>a<p. \<Sum>b<p. q a * (M a b * q b))"
    by (rule sum.swap)
  also have "\<dots> = (\<Sum>a<p. q a * v a)"
    by (simp add: v_def sum_distrib_left)
  also have "\<dots> = (\<Sum>a<p. (\<Sum>b<p. G a b * v b) * v a)"
    by (intro sum.cong) (simp_all add: qa)
  also have "\<dots> = (\<Sum>a<p. \<Sum>b<p. \<Sum>i<n. w i * ((X i a * v a) * (X i b * v b)))"
    by (simp add: G_def sum_distrib_right sum_distrib_left mult_ac)
  also have "\<dots> = (\<Sum>a<p. \<Sum>i<n. \<Sum>b<p. w i * ((X i a * v a) * (X i b * v b)))"
    by (intro sum.cong refl sum.swap)
  also have "\<dots> = (\<Sum>i<n. \<Sum>a<p. \<Sum>b<p. w i * ((X i a * v a) * (X i b * v b)))"
    by (rule sum.swap)
  also have "\<dots> = (\<Sum>i<n. w i * (z i * z i))"
  proof (rule sum.cong [OF refl])
    fix i
    have "(\<Sum>a<p. \<Sum>b<p. w i * ((X i a * v a) * (X i b * v b)))
          = w i * (\<Sum>a<p. \<Sum>b<p. (X i a * v a) * (X i b * v b))"
      by (simp only: sum_distrib_left [symmetric])
    also have "\<dots> = w i * (z i * z i)"
      by (simp only: z_def sum_product)
    finally show "(\<Sum>a<p. \<Sum>b<p. w i * ((X i a * v a) * (X i b * v b))) = w i * (z i * z i)" .
  qed
  finally have "(\<Sum>b<p. (\<Sum>a<p. q a * M a b) * q b) = (\<Sum>i<n. w i * (z i * z i))" .
  moreover have "0 \<le> (\<Sum>i<n. w i * (z i * z i))"
  proof (rule sum_nonneg)
    fix i assume "i \<in> {..<n}"
    then have "0 \<le> w i" by (simp add: w)
    then show "0 \<le> w i * (z i * z i)" by simp
  qed
  ultimately show ?thesis by simp
qed


lemma matmul_entry_of_inverse:
  assumes G: "is_mat p p G" and inv: "is_inverse p G M" and p: "0 < p"
    and a: "a < p" and c: "c < p"
  shows "(\<Sum>b<p. G ! a ! b * M ! b ! c) = (if a = c then 1 else 0)"
proof -
  have M: "is_mat p p M" and e: "matmul G M = eye p"
    using inv by (simp_all add: is_inverse_def)
  have "(\<Sum>b<p. G ! a ! b * M ! b ! c) = matmul G M ! a ! c"
    using matmul_nth [OF G M p a c] by simp
  also have "\<dots> = (if a = c then 1 else 0)"
    using a c by (simp add: e eye_nth)
  finally show ?thesis .
qed

lemma inner_sqrt_term_weighted_nonneg:
  assumes X: "is_mat n p X" and n: "0 < n" and p: "0 < p"
    and w: "length w = n" and wpos: "\<forall>x\<in>set w. 0 < x"
    and q: "is_mat p 1 q"
    and inv: "is_inverse p (matmul (matmul (T X) (diag w)) X)
                (linalg_inv (matmul (matmul (T X) (diag w)) X))"
  shows "0 \<le> inner_sqrt_term_weighted linalg_inv X w q"
proof -
  let ?G = "matmul (matmul (T X) (diag w)) X"
  let ?M = "linalg_inv ?G"
  have TX: "is_mat p n (T X)" using X n by (rule T_is_mat)
  have D: "is_mat n n (diag w)" using diag_is_mat [of w] w by simp
  have TD: "is_mat p n (matmul (T X) (diag w))" using TX D n by (rule matmul_is_mat)
  have G: "is_mat p p ?G" using TD X n by (rule matmul_is_mat)
  have M: "is_mat p p ?M" using inv by (simp add: is_inverse_def)
  have i: "(\<Sum>b<p. (\<Sum>i<n. X ! i ! a * w ! i * X ! i ! b) * ?M ! b ! c) = (if a = c then 1 else 0)"
    if a: "a < p" and c: "c < p" for a c
  proof -
    have "(\<Sum>b<p. (\<Sum>i<n. X ! i ! a * w ! i * X ! i ! b) * ?M ! b ! c)
          = (\<Sum>b<p. ?G ! a ! b * ?M ! b ! c)"
      using X w n a by (intro sum.cong) (simp_all add: weighted_gram_nth)
    also have "\<dots> = (if a = c then 1 else 0)"
      using G inv p a c by (rule matmul_entry_of_inverse)
    finally show ?thesis .
  qed
  have wi: "0 \<le> w ! i" if "i < n" for i
    using that w wpos by (simp add: less_imp_le)
  have "0 \<le> (\<Sum>b<p. (\<Sum>a<p. q ! a ! 0 * ?M ! a ! b) * q ! b ! 0)"
    by (rule quadratic_form_nonneg [where X = "\<lambda>i a. X ! i ! a" and w = "\<lambda>i. w ! i" and n = n])
       (simp_all add: i wi)
  then show ?thesis
    by (simp add: inner_sqrt_term_weighted_def quadratic_form_nth [OF q M p])
qed

lemma inner_sqrt_term_nonneg:
  assumes X: "is_mat n p X" and n: "0 < n" and p: "0 < p"
    and q: "is_mat p 1 q"
    and inv: "is_inverse p (matmul (T X) X) (linalg_inv (matmul (T X) X))"
  shows "0 \<le> inner_sqrt_term linalg_inv X q"
proof -
  let ?G = "matmul (T X) X"
  let ?M = "linalg_inv ?G"
  have TX: "is_mat p n (T X)" using X n by (rule T_is_mat)
  have G: "is_mat p p ?G" using TX X n by (rule matmul_is_mat)
  have M: "is_mat p p ?M" using inv by (simp add: is_inverse_def)
  have i: "(\<Sum>b<p. (\<Sum>i<n. X ! i ! a * 1 * X ! i ! b) * ?M ! b ! c) = (if a = c then 1 else 0)"
    if a: "a < p" and c: "c < p" for a c
  proof -
    have "(\<Sum>b<p. (\<Sum>i<n. X ! i ! a * 1 * X ! i ! b) * ?M ! b ! c)
          = (\<Sum>b<p. ?G ! a ! b * ?M ! b ! c)"
      using X n a by (intro sum.cong) (simp_all add: gram_nth)
    also have "\<dots> = (if a = c then 1 else 0)"
      using G inv p a c by (rule matmul_entry_of_inverse)
    finally show ?thesis .
  qed
  have "0 \<le> (\<Sum>b<p. (\<Sum>a<p. q ! a ! 0 * ?M ! a ! b) * q ! b ! 0)"
    by (rule quadratic_form_nonneg [where X = "\<lambda>i a. X ! i ! a" and w = "\<lambda>i. 1" and n = n])
       (simp_all only: i zero_le_one)
  then show ?thesis
    by (simp add: inner_sqrt_term_def quadratic_form_nth [OF q M p])
qed


section \<open>Half-widths of the intervals\<close>

lemma t_ppf_df1_symmetric_quantile: "symmetric_quantile t_ppf_df1 df"
proof -
  have "t_ppf_df1 q1 df < t_ppf_df1 q2 df" if "0 < q1" "q1 < q2" "q2 < 1" for q1 q2
  proof -
    have "- (pi / 2) < pi * (q1 - 1 / 2)"
    proof -
      have "pi * (- (1 / 2)) < pi * (q1 - 1 / 2)"
        using that by (intro mult_strict_left_mono) auto
      then show ?thesis by simp
    qed
    moreover have "pi * (q1 - 1 / 2) < pi * (q2 - 1 / 2)"
      using that by (intro mult_strict_left_mono) auto
    moreover have "pi * (q2 - 1 / 2) < pi / 2"
    proof -
      have "pi * (q2 - 1 / 2) < pi * (1 / 2)"
        using that by (intro mult_strict_left_mono) auto
      then show ?thesis by simp
    qed
    ultimately show ?thesis
      unfolding t_ppf_df1_def by (rule tan_monotone)
  qed
  then show ?thesis
    by (simp add: symmetric_quantile_def) (simp add: t_ppf_df1_def)
qed

lemma symmetric_quantile_strict:
  assumes "symmetric_quantile t_ppf df" "0 < q1" "q1 < q2" "q2 < 1"
  shows "t_ppf q1 df < t_ppf q2 df"
proof -
  from assms(1)
  have "\<forall>q1 q2. 0 < q1 \<and> q1 < q2 \<and> q2 < 1 \<longrightarrow> t_ppf q1 df < t_ppf q2 df"
    by (simp add: symmetric_quantile_def)
  with assms(2-4) show ?thesis by blast
qed

lemma symmetric_quantile_mono:
  assumes "symmetric_quantile t_ppf df" "0 < q1" "q1 \<le> q2" "q2 < 1"
  shows "t_ppf q1 df \<le> t_ppf q2 df"
proof (cases "q1 = q2")
  case True
  then show ?thesis by simp
next
  case False
  with assms(3) have "q1 < q2" by simp
  from symmetric_quantile_strict [OF assms(1,2) this assms(4)]
  show ?thesis by simp
qed

lemma symmetric_quantile_upper_pos:
  assumes "symmetric_quantile t_ppf df" "0 < alpha" "alpha < 1"
  shows "0 < t_ppf (1 - alpha / 2) df"
proof -
  have a: "(0::real) < 1 / 2" by simp
  have b: "1 / 2 < 1 - alpha / 2" using assms(3) by simp
  have c: "1 - alpha / 2 < 1" using assms(2) by simp
  have z: "t_ppf (1 / 2) df = 0"
    using assms(1) by (simp add: symmetric_quantile_def)
  from symmetric_quantile_strict [OF assms(1) a b c] z
  show ?thesis by simp
qed

lemma CL_value:
  assumes "p < n" "0 \<le> h"
  shows "one_sided_CL_magnitude t_ppf alpha n p (s_value r n p) h
         = Finite (t_ppf (1 - alpha / 2) (n - p) * (linalg_norm r / sqrt (of_int (n - p))) * sqrt h)"
  using assms by (simp add: one_sided_CL_magnitude_def s_value_def)

lemma PL_value:
  assumes "p < n" "0 \<le> 1 + h"
  shows "one_sided_PL_magnitude t_ppf alpha n p (s_value r n p) h
         = Finite (t_ppf (1 - alpha / 2) (n - p) * (linalg_norm r / sqrt (of_int (n - p))) * sqrt (1 + h))"
  using assms by (simp add: one_sided_PL_magnitude_def s_value_def)

lemma CL_weighted_value:
  assumes "0 \<le> s2 * h"
  shows "one_sided_CL_magnitude_weighted t_ppf alpha n p (Finite s2) h
         = Finite (t_ppf (1 - alpha / 2) (n - p) * sqrt (s2 * h))"
  using assms by (simp add: one_sided_CL_magnitude_weighted_def)

lemma PL_weighted_value:
  assumes "0 \<le> s2 + s2 * h"
  shows "one_sided_PL_magnitude_weighted t_ppf alpha n p (Finite s2) h
         = Finite (t_ppf (1 - alpha / 2) (n - p) * sqrt (s2 + s2 * h))"
  using assms by (simp add: one_sided_PL_magnitude_weighted_def)

lemma s_value_sqrt_form:
  assumes "p < n"
  shows "linalg_norm r / sqrt (of_int (n - p)) = sqrt ((\<Sum>x\<leftarrow>r. x\<^sup>2) / of_int (n - p))"
  by (simp add: linalg_norm_def real_sqrt_divide)

lemma weighted_variance_nonneg:
  assumes "p < n" "\<forall>a\<in>set w. 0 < (a::real)"
  shows "0 \<le> (\<Sum>(a, x)\<leftarrow>zip w r. a * x\<^sup>2) / real_of_int (n - p)"
proof -
  from assms(2) have "\<forall>a\<in>set w. 0 \<le> a" by (simp add: less_imp_le)
  then have "0 \<le> (\<Sum>(a, x)\<leftarrow>zip w r. a * x\<^sup>2)" by (rule weighted_sum_squares_nonneg)
  with assms(1) show ?thesis by simp
qed

lemma cell_inputs_counts:
  assumes "cell_inputs linalg_inv x_design y_weights q r n p"
  shows "p < n" and "\<forall>w\<in>set y_weights. 0 < w"
  using assms by (simp_all add: cell_inputs_def)

lemma cell_inputs_leverage:
  assumes "cell_inputs linalg_inv x_design y_weights q r n p"
  shows "0 \<le> inner_sqrt_term linalg_inv x_design q"
    and "0 \<le> inner_sqrt_term_weighted linalg_inv x_design y_weights q"
proof -
  have X: "is_mat (nat n) (nat p) x_design" and q: "is_mat (nat p) 1 q"
    and n: "0 < nat n" and p: "0 < nat p"
    and l: "length y_weights = nat n" and w: "\<forall>w\<in>set y_weights. 0 < w"
    and i: "is_inverse (nat p) (matmul (T x_design) x_design)
              (linalg_inv (matmul (T x_design) x_design))"
    and iw: "is_inverse (nat p) (matmul (matmul (T x_design) (diag y_weights)) x_design)
              (linalg_inv (matmul (matmul (T x_design) (diag y_weights)) x_design))"
    using assms by (simp_all add: cell_inputs_def)
  show "0 \<le> inner_sqrt_term linalg_inv x_design q"
    using X n p q i by (rule inner_sqrt_term_nonneg)
  show "0 \<le> inner_sqrt_term_weighted linalg_inv x_design y_weights q"
    using X n p l w q iw by (rule inner_sqrt_term_weighted_nonneg)
qed

text \<open>
  The running example: the observations \<open>1, 3, 6\<close> at \<open>x = 0, 1, 2\<close>, the coefficients
  \<open>slope = 2\<close> and \<open>intercept = 1\<close> (two parameters), the query \<open>x = 6\<close>, every weight
  \<open>2\<close> and the significance level \<open>1/2\<close>.
\<close>

lemma example_cell_inputs:
  "cell_inputs inv_2x2 [[1, 0], [1, 1], [1, 2]] [2, 2, 2] [[1], [6]]
     (residuals [0, 1, 2] [1, 3, 6] 2 1) 3 2"
  by (simp add: cell_inputs_def is_inverse_def is_mat_def matmul_def T_def dot_def inv_2x2_def
      eye_def diag_def residuals_def numeral_2_eq_2)

lemma example_leverage:
  "inner_sqrt_term inv_2x2 [[1, 0], [1, 1], [1, 2]] [[1], [6]] = 77 / 6"
  by (simp add: inner_sqrt_term_def inv_2x2_def matmul_def T_def dot_def)

lemma example_leverage_weighted:
  "inner_sqrt_term_weighted inv_2x2 [[1, 0], [1, 1], [1, 2]] [2, 2, 2] [[1], [6]] = 77 / 12"
  by (simp add: inner_sqrt_term_weighted_def inv_2x2_def matmul_def T_def dot_def diag_def)

lemma example_quantile: "t_ppf_df1 (3 / 4) 1 = 1"
  by (simp add: t_ppf_df1_def tan_45)

lemma example_s_value: "s_value (residuals [0, 1, 2] [1, 3, 6] 2 1) 3 2 = Finite 1"
  by (simp add: s_value_def residuals_def linalg_norm_def)

lemma example_s_squared_value:
  "s_squared_value [2, 2, 2] (residuals [0, 1, 2] [1, 3, 6] 2 1) 3 2 = Inr (Finite 2)"
  by (simp add: s_squared_value_def residuals_def)

lemma cell_inputs_leverage_entries:
  assumes "cell_inputs linalg_inv x_design y_weights q r n p"
  shows "inner_sqrt_term linalg_inv x_design q
         = (\<Sum>b<nat p. (\<Sum>a<nat p. q ! a ! 0 * linalg_inv (matmul (T x_design) x_design) ! a ! b)
                          * q ! b ! 0)"
    and "inner_sqrt_term_weighted linalg_inv x_design y_weights q
         = (\<Sum>b<nat p. (\<Sum>a<nat p. q ! a ! 0
                  * linalg_inv (matmul (matmul (T x_design) (diag y_weights)) x_design) ! a ! b)
                          * q ! b ! 0)"
proof -
  have q: "is_mat (nat p) 1 q" and p: "0 < nat p"
    and i: "is_inverse (nat p) (matmul (T x_design) x_design)
              (linalg_inv (matmul (T x_design) x_design))"
    and iw: "is_inverse (nat p) (matmul (matmul (T x_design) (diag y_weights)) x_design)
              (linalg_inv (matmul (matmul (T x_design) (diag y_weights)) x_design))"
    using assms by (simp_all add: cell_inputs_def)
  have M: "is_mat (nat p) (nat p) (linalg_inv (matmul (T x_design) x_design))"
    using i by (simp add: is_inverse_def)
  have Mw: "is_mat (nat p) (nat p)
              (linalg_inv (matmul (matmul (T x_design) (diag y_weights)) x_design))"
    using iw by (simp add: is_inverse_def)
  show "inner_sqrt_term linalg_inv x_design q
         = (\<Sum>b<nat p. (\<Sum>a<nat p. q ! a ! 0 * linalg_inv (matmul (T x_design) x_design) ! a ! b)
                          * q ! b ! 0)"
    unfolding inner_sqrt_term_def using q M p by (rule quadratic_form_nth)
  show "inner_sqrt_term_weighted linalg_inv x_design y_weights q
         = (\<Sum>b<nat p. (\<Sum>a<nat p. q ! a ! 0
                  * linalg_inv (matmul (matmul (T x_design) (diag y_weights)) x_design) ! a ! b)
                          * q ! b ! 0)"
    unfolding inner_sqrt_term_weighted_def using q Mw p by (rule quadratic_form_nth)
qed

lemma cell_inputs_inverse_entries:
  assumes "cell_inputs linalg_inv x_design y_weights q r n p"
    and "a < nat p" and "c < nat p"
  shows "(\<Sum>b<nat p. (\<Sum>i<nat n. x_design ! i ! a * x_design ! i ! b)
                       * linalg_inv (matmul (T x_design) x_design) ! b ! c)
         = (if a = c then 1 else 0)"
    and "(\<Sum>b<nat p. (\<Sum>i<nat n. x_design ! i ! a * y_weights ! i * x_design ! i ! b)
                       * linalg_inv (matmul (matmul (T x_design) (diag y_weights)) x_design) ! b ! c)
         = (if a = c then 1 else 0)"
proof -
  let ?G = "matmul (T x_design) x_design"
  let ?Gw = "matmul (matmul (T x_design) (diag y_weights)) x_design"
  have X: "is_mat (nat n) (nat p) x_design" and n: "0 < nat n" and p: "0 < nat p"
    and l: "length y_weights = nat n"
    and i: "is_inverse (nat p) ?G (linalg_inv ?G)"
    and iw: "is_inverse (nat p) ?Gw (linalg_inv ?Gw)"
    using assms(1) by (simp_all add: cell_inputs_def)
  have TX: "is_mat (nat p) (nat n) (T x_design)" using X n by (rule T_is_mat)
  have G: "is_mat (nat p) (nat p) ?G" using TX X n by (rule matmul_is_mat)
  have D: "is_mat (nat n) (nat n) (diag y_weights)" using diag_is_mat [of y_weights] l by simp
  have TD: "is_mat (nat p) (nat n) (matmul (T x_design) (diag y_weights))"
    using TX D n by (rule matmul_is_mat)
  have Gw: "is_mat (nat p) (nat p) ?Gw" using TD X n by (rule matmul_is_mat)
  have "(\<Sum>b<nat p. (\<Sum>i<nat n. x_design ! i ! a * x_design ! i ! b) * linalg_inv ?G ! b ! c)
        = (\<Sum>b<nat p. ?G ! a ! b * linalg_inv ?G ! b ! c)"
    using X n assms(2) by (intro sum.cong) (simp_all add: gram_nth)
  also have "\<dots> = (if a = c then 1 else 0)"
    using G i p assms(2,3) by (rule matmul_entry_of_inverse)
  finally show "(\<Sum>b<nat p. (\<Sum>i<nat n. x_design ! i ! a * x_design ! i ! b)
                       * linalg_inv ?G ! b ! c) = (if a = c then 1 else 0)" .
  have "(\<Sum>b<nat p. (\<Sum>i<nat n. x_design ! i ! a * y_weights ! i * x_design ! i ! b)
                       * linalg_inv ?Gw ! b ! c)
        = (\<Sum>b<nat p. ?Gw ! a ! b * linalg_inv ?Gw ! b ! c)"
    using X l n assms(2) by (intro sum.cong) (simp_all add: weighted_gram_nth)
  also have "\<dots> = (if a = c then 1 else 0)"
    using Gw iw p assms(2,3) by (rule matmul_entry_of_inverse)
  finally show "(\<Sum>b<nat p. (\<Sum>i<nat n. x_design ! i ! a * y_weights ! i * x_design ! i ! b)
                       * linalg_inv ?Gw ! b ! c) = (if a = c then 1 else 0)" .
qed

text \<open>
  C1. Take the data of a cell (\<open>n\<close> observations, \<open>p\<close> parameters, \<open>p < n\<close>, a query \<open>q\<close> of
  \<open>p\<close> entries, positive weights \<open>w\<close>) and a significance level strictly between 0 and 1.
  Let \<open>M\<close> be what \<open>linalg_inv\<close> returns on the cell's matrix \<open>X\<^sup>T X\<close>, and \<open>Mw\<close> on
  \<open>X\<^sup>T W X\<close>. Then \<open>M\<close> is the inverse of the matrix with the entries \<open>\<Sum>i. X i a * X i b\<close>
  and \<open>Mw\<close> of the one with the entries \<open>\<Sum>i. X i a * w i * X i b\<close>; the cell's
  \<open>inner_sqrt_term\<close> is the leverage \<open>h = \<Sum>a b. q a * M a b * q b\<close> (with \<open>Mw\<close> in the
  weighted cell); and the confidence half-width the cell computes is
  \<open>t * sqrt (s\<^sup>2 * h)\<close>, where \<open>t\<close> is the quantile at \<open>1 - alpha / 2\<close> with \<open>n - p\<close> degrees
  of freedom and \<open>s\<^sup>2\<close> is the sum of the (weighted) squared residuals divided by \<open>n - p\<close>.
\<close>

theorem confidence_halfwidth:
  assumes "cell_inputs linalg_inv x_design y_weights q r n p"
    and "0 < alpha" and "alpha < 1"
  shows "(let M = linalg_inv (matmul (T x_design) x_design);
              h = (\<Sum>b<nat p. (\<Sum>a<nat p. q ! a ! 0 * M ! a ! b) * q ! b ! 0)
          in (\<forall>a<nat p. \<forall>c<nat p.
                (\<Sum>b<nat p. (\<Sum>i<nat n. x_design ! i ! a * x_design ! i ! b) * M ! b ! c)
                = (if a = c then 1 else 0))
           \<and> inner_sqrt_term linalg_inv x_design q = h
           \<and> one_sided_CL_magnitude t_ppf alpha n p (s_value r n p)
                (inner_sqrt_term linalg_inv x_design q)
               = Finite (t_ppf (1 - alpha / 2) (n - p)
                         * sqrt ((\<Sum>x\<leftarrow>r. x\<^sup>2) / of_int (n - p) * h)))
       \<and> (let Mw = linalg_inv (matmul (matmul (T x_design) (diag y_weights)) x_design);
              hw = (\<Sum>b<nat p. (\<Sum>a<nat p. q ! a ! 0 * Mw ! a ! b) * q ! b ! 0)
          in (\<forall>a<nat p. \<forall>c<nat p.
                (\<Sum>b<nat p. (\<Sum>i<nat n. x_design ! i ! a * y_weights ! i * x_design ! i ! b)
                              * Mw ! b ! c)
                = (if a = c then 1 else 0))
           \<and> inner_sqrt_term_weighted linalg_inv x_design y_weights q = hw
           \<and> (\<exists>s2. s_squared_value y_weights r n p = Inr s2 \<and>
                 one_sided_CL_magnitude_weighted t_ppf alpha n p s2
                   (inner_sqrt_term_weighted linalg_inv x_design y_weights q)
                 = Finite (t_ppf (1 - alpha / 2) (n - p)
                           * sqrt ((\<Sum>(w, x)\<leftarrow>zip y_weights r. w * x\<^sup>2) / of_int (n - p)
                                   * hw))))"
proof -
  let ?h = "inner_sqrt_term linalg_inv x_design q"
  let ?hw = "inner_sqrt_term_weighted linalg_inv x_design y_weights q"
  note np = cell_inputs_counts(1) [OF assms(1)] and w = cell_inputs_counts(2) [OF assms(1)]
  note h = cell_inputs_leverage(1) [OF assms(1)] and hw = cell_inputs_leverage(2) [OF assms(1)]
  note eh = cell_inputs_leverage_entries(1) [OF assms(1)]
    and ehw = cell_inputs_leverage_entries(2) [OF assms(1)]
  have u: "one_sided_CL_magnitude t_ppf alpha n p (s_value r n p) ?h
           = Finite (t_ppf (1 - alpha / 2) (n - p)
                     * sqrt ((\<Sum>x\<leftarrow>r. x\<^sup>2) / of_int (n - p) * ?h))"
    by (simp only: CL_value [OF np h] mult.assoc s_value_sqrt_form [OF np] real_sqrt_mult)
  let ?s2 = "(\<Sum>(w, x)\<leftarrow>zip y_weights r. w * x\<^sup>2) / real_of_int (n - p)"
  have "0 \<le> ?s2" using np w by (rule weighted_variance_nonneg)
  with hw have "0 \<le> ?s2 * ?hw" by (rule mult_nonneg_nonneg [rotated])
  then have "one_sided_CL_magnitude_weighted t_ppf alpha n p (Finite ?s2) ?hw
             = Finite (t_ppf (1 - alpha / 2) (n - p) * sqrt (?s2 * ?hw))"
    by (rule CL_weighted_value)
  with s_squared_value_finite [OF np, of y_weights r]
  have v: "\<exists>s2. s_squared_value y_weights r n p = Inr s2 \<and>
             one_sided_CL_magnitude_weighted t_ppf alpha n p s2 ?hw
               = Finite (t_ppf (1 - alpha / 2) (n - p) * sqrt (?s2 * ?hw))"
    by blast
  have i: "\<forall>a<nat p. \<forall>c<nat p.
      (\<Sum>b<nat p. (\<Sum>i<nat n. x_design ! i ! a * x_design ! i ! b)
                    * linalg_inv (matmul (T x_design) x_design) ! b ! c)
      = (if a = c then 1 else 0)"
    using cell_inputs_inverse_entries(1) [OF assms(1)] by blast
  have iw: "\<forall>a<nat p. \<forall>c<nat p.
      (\<Sum>b<nat p. (\<Sum>i<nat n. x_design ! i ! a * y_weights ! i * x_design ! i ! b)
                    * linalg_inv (matmul (matmul (T x_design) (diag y_weights)) x_design) ! b ! c)
      = (if a = c then 1 else 0)"
    using cell_inputs_inverse_entries(2) [OF assms(1)] by blast
  from u have u': "one_sided_CL_magnitude t_ppf alpha n p (s_value r n p) ?h
           = Finite (t_ppf (1 - alpha / 2) (n - p)
                     * sqrt ((\<Sum>x\<leftarrow>r. x\<^sup>2) / of_int (n - p)
                        * (\<Sum>b<nat p. (\<Sum>a<nat p. q ! a ! 0
                              * linalg_inv (matmul (T x_design) x_design) ! a ! b) * q ! b ! 0)))"
    by (simp only: eh [symmetric])
  from v have v': "\<exists>s2. s_squared_value y_weights r n p = Inr s2 \<and>
             one_sided_CL_magnitude_weighted t_ppf alpha n p s2 ?hw
               = Finite (t_ppf (1 - alpha / 2) (n - p) * sqrt (?s2
                   * (\<Sum>b<nat p. (\<Sum>a<nat p. q ! a ! 0
                        * linalg_inv (matmul (matmul (T x_design) (diag y_weights)) x_design) ! a ! b)
                          * q ! b ! 0)))"
    by (simp only: ehw [symmetric])
  show ?thesis
    unfolding Let_def using i eh u' iw ehw v' by blast
qed


lemma example_inverse:
  "inv_2x2 (matmul (T [[1, 0], [1, 1], [1, 2]]) [[1, 0], [1, 1], [1, 2]])
   = [[5 / 6, - 1 / 2], [- 1 / 2, 1 / 2]]"
  by (simp add: inv_2x2_def matmul_def T_def dot_def)

lemma example_inverse_weighted:
  "inv_2x2 (matmul (matmul (T [[1, 0], [1, 1], [1, 2]]) (diag [2, 2, 2])) [[1, 0], [1, 1], [1, 2]])
   = [[5 / 12, - 1 / 4], [- 1 / 4, 1 / 4]]"
  by (simp add: inv_2x2_def matmul_def T_def dot_def diag_def)

lemma example_quadratic_form:
  "(\<Sum>b<nat 2. (\<Sum>a<nat 2. [[1], [6]] ! a ! 0 * [[5 / 6, - 1 / 2], [- 1 / 2, 1 / 2]] ! a ! b)
                   * [[1], [6]] ! b ! 0) = (77 / 6 :: real)"
  by (simp add: numeral_2_eq_2)

lemma example_quadratic_form_weighted:
  "(\<Sum>b<nat 2. (\<Sum>a<nat 2. [[1], [6]] ! a ! 0 * [[5 / 12, - 1 / 4], [- 1 / 4, 1 / 4]] ! a ! b)
                   * [[1], [6]] ! b ! 0) = (77 / 12 :: real)"
  by (simp add: numeral_2_eq_2)

theorem confidence_halfwidth_witness:
  "inner_sqrt_term inv_2x2 [[1, 0], [1, 1], [1, 2]] [[1], [6]] = 77 / 6
   \<and> one_sided_CL_magnitude t_ppf_df1 (1 / 2) 3 2 (s_value (residuals [0, 1, 2] [1, 3, 6] 2 1) 3 2)
      (inner_sqrt_term inv_2x2 [[1, 0], [1, 1], [1, 2]] [[1], [6]]) = Finite (sqrt (77 / 6))
   \<and> inner_sqrt_term_weighted inv_2x2 [[1, 0], [1, 1], [1, 2]] [2, 2, 2] [[1], [6]] = 77 / 12
   \<and> (\<exists>s2. s_squared_value [2, 2, 2] (residuals [0, 1, 2] [1, 3, 6] 2 1) 3 2 = Inr s2 \<and>
         one_sided_CL_magnitude_weighted t_ppf_df1 (1 / 2) 3 2 s2
           (inner_sqrt_term_weighted inv_2x2 [[1, 0], [1, 1], [1, 2]] [2, 2, 2] [[1], [6]])
         = Finite (sqrt (77 / 6)))"
proof -
  have a0: "(0::real) < 1 / 2" and a1: "(1/2::real) < 1" by simp_all
  note t = confidence_halfwidth [OF example_cell_inputs a0 a1, of t_ppf_df1,
      unfolded Let_def example_inverse example_inverse_weighted
        example_quadratic_form example_quadratic_form_weighted]
  have r: "(\<Sum>x\<leftarrow>residuals [0, 1, 2] [1, 3, 6] 2 1. x\<^sup>2) = 1"
    and rw: "(\<Sum>(w, x)\<leftarrow>zip [2, 2, 2] (residuals [0, 1, 2] [1, 3, 6] 2 1). w * x\<^sup>2) = 2"
    by (simp_all add: residuals_def)
  from t have "inner_sqrt_term inv_2x2 [[1, 0], [1, 1], [1, 2]] [[1], [6]] = 77 / 6"
    and "inner_sqrt_term_weighted inv_2x2 [[1, 0], [1, 1], [1, 2]] [2, 2, 2] [[1], [6]] = 77 / 12"
    by blast+
  moreover from t
  have "one_sided_CL_magnitude t_ppf_df1 (1 / 2) 3 2 (s_value (residuals [0, 1, 2] [1, 3, 6] 2 1) 3 2)
      (inner_sqrt_term inv_2x2 [[1, 0], [1, 1], [1, 2]] [[1], [6]])
      = Finite (t_ppf_df1 (1 - 1 / 2 / 2) (3 - 2)
          * sqrt ((\<Sum>x\<leftarrow>residuals [0, 1, 2] [1, 3, 6] 2 1. x\<^sup>2) / real_of_int (3 - 2) * (77 / 6)))"
    by blast
  then have "one_sided_CL_magnitude t_ppf_df1 (1 / 2) 3 2
      (s_value (residuals [0, 1, 2] [1, 3, 6] 2 1) 3 2)
      (inner_sqrt_term inv_2x2 [[1, 0], [1, 1], [1, 2]] [[1], [6]]) = Finite (sqrt (77 / 6))"
    by (simp add: r example_quantile)
  moreover from t
  have "\<exists>s2. s_squared_value [2, 2, 2] (residuals [0, 1, 2] [1, 3, 6] 2 1) 3 2 = Inr s2 \<and>
         one_sided_CL_magnitude_weighted t_ppf_df1 (1 / 2) 3 2 s2
           (inner_sqrt_term_weighted inv_2x2 [[1, 0], [1, 1], [1, 2]] [2, 2, 2] [[1], [6]])
         = Finite (t_ppf_df1 (1 - 1 / 2 / 2) (3 - 2)
            * sqrt ((\<Sum>(w, x)\<leftarrow>zip [2, 2, 2] (residuals [0, 1, 2] [1, 3, 6] 2 1). w * x\<^sup>2)
                    / real_of_int (3 - 2) * (77 / 12)))"
    by blast
  then have "\<exists>s2. s_squared_value [2, 2, 2] (residuals [0, 1, 2] [1, 3, 6] 2 1) 3 2 = Inr s2 \<and>
         one_sided_CL_magnitude_weighted t_ppf_df1 (1 / 2) 3 2 s2
           (inner_sqrt_term_weighted inv_2x2 [[1, 0], [1, 1], [1, 2]] [2, 2, 2] [[1], [6]])
         = Finite (sqrt (77 / 6))"
    by (simp add: rw example_quantile)
  ultimately show ?thesis by blast
qed


text \<open>
  C2. Under the same conditions, and with the leverage \<open>h\<close> (\<open>hw\<close> in the weighted cell)
  as for the confidence interval, the prediction half-width the cells compute is
  \<open>t * sqrt (s\<^sup>2 * (1 + h))\<close>, in the unweighted and in the weighted cell.
\<close>

theorem prediction_halfwidth:
  assumes "cell_inputs linalg_inv x_design y_weights q r n p"
    and "0 < alpha" and "alpha < 1"
  shows "(let M = linalg_inv (matmul (T x_design) x_design);
              h = (\<Sum>b<nat p. (\<Sum>a<nat p. q ! a ! 0 * M ! a ! b) * q ! b ! 0)
          in (\<forall>a<nat p. \<forall>c<nat p.
                (\<Sum>b<nat p. (\<Sum>i<nat n. x_design ! i ! a * x_design ! i ! b) * M ! b ! c)
                = (if a = c then 1 else 0))
           \<and> inner_sqrt_term linalg_inv x_design q = h
           \<and> one_sided_PL_magnitude t_ppf alpha n p (s_value r n p)
                (inner_sqrt_term linalg_inv x_design q)
               = Finite (t_ppf (1 - alpha / 2) (n - p)
                         * sqrt ((\<Sum>x\<leftarrow>r. x\<^sup>2) / of_int (n - p) * (1 + h))))
       \<and> (let Mw = linalg_inv (matmul (matmul (T x_design) (diag y_weights)) x_design);
              hw = (\<Sum>b<nat p. (\<Sum>a<nat p. q ! a ! 0 * Mw ! a ! b) * q ! b ! 0)
          in (\<forall>a<nat p. \<forall>c<nat p.
                (\<Sum>b<nat p. (\<Sum>i<nat n. x_design ! i ! a * y_weights ! i * x_design ! i ! b)
                              * Mw ! b ! c)
                = (if a = c then 1 else 0))
           \<and> inner_sqrt_term_weighted linalg_inv x_design y_weights q = hw
           \<and> (\<exists>s2. s_squared_value y_weights r n p = Inr s2 \<and>
                 one_sided_PL_magnitude_weighted t_ppf alpha n p s2
                   (inner_sqrt_term_weighted linalg_inv x_design y_weights q)
                 = Finite (t_ppf (1 - alpha / 2) (n - p)
                           * sqrt ((\<Sum>(w, x)\<leftarrow>zip y_weights r. w * x\<^sup>2) / of_int (n - p)
                                   * (1 + hw)))))"
proof -
  let ?h = "inner_sqrt_term linalg_inv x_design q"
  let ?hw = "inner_sqrt_term_weighted linalg_inv x_design y_weights q"
  note np = cell_inputs_counts(1) [OF assms(1)] and w = cell_inputs_counts(2) [OF assms(1)]
  note h = cell_inputs_leverage(1) [OF assms(1)] and hw = cell_inputs_leverage(2) [OF assms(1)]
  note eh = cell_inputs_leverage_entries(1) [OF assms(1)]
    and ehw = cell_inputs_leverage_entries(2) [OF assms(1)]
  have h1: "0 \<le> 1 + ?h" and hw1: "0 \<le> 1 + ?hw" using h hw by simp_all
  have u: "one_sided_PL_magnitude t_ppf alpha n p (s_value r n p) ?h
           = Finite (t_ppf (1 - alpha / 2) (n - p)
                     * sqrt ((\<Sum>x\<leftarrow>r. x\<^sup>2) / of_int (n - p) * (1 + ?h)))"
    by (simp only: PL_value [OF np h1] mult.assoc s_value_sqrt_form [OF np] real_sqrt_mult)
  let ?s2 = "(\<Sum>(w, x)\<leftarrow>zip y_weights r. w * x\<^sup>2) / real_of_int (n - p)"
  have s2: "0 \<le> ?s2" using np w by (rule weighted_variance_nonneg)
  from s2 hw1 have "0 \<le> ?s2 * (1 + ?hw)" by (rule mult_nonneg_nonneg)
  then have "0 \<le> ?s2 + ?s2 * ?hw" by (simp only: distrib_left mult_1_right)
  then have "one_sided_PL_magnitude_weighted t_ppf alpha n p (Finite ?s2) ?hw
             = Finite (t_ppf (1 - alpha / 2) (n - p) * sqrt (?s2 + ?s2 * ?hw))"
    by (rule PL_weighted_value)
  moreover have "?s2 + ?s2 * ?hw = ?s2 * (1 + ?hw)"
    by (simp only: distrib_left mult_1_right)
  ultimately have "one_sided_PL_magnitude_weighted t_ppf alpha n p (Finite ?s2) ?hw
             = Finite (t_ppf (1 - alpha / 2) (n - p) * sqrt (?s2 * (1 + ?hw)))"
    by simp
  with s_squared_value_finite [OF np, of y_weights r]
  have v: "\<exists>s2. s_squared_value y_weights r n p = Inr s2 \<and>
             one_sided_PL_magnitude_weighted t_ppf alpha n p s2 ?hw
               = Finite (t_ppf (1 - alpha / 2) (n - p) * sqrt (?s2 * (1 + ?hw)))"
    by blast
  have i: "\<forall>a<nat p. \<forall>c<nat p.
      (\<Sum>b<nat p. (\<Sum>i<nat n. x_design ! i ! a * x_design ! i ! b)
                    * linalg_inv (matmul (T x_design) x_design) ! b ! c)
      = (if a = c then 1 else 0)"
    using cell_inputs_inverse_entries(1) [OF assms(1)] by blast
  have iw: "\<forall>a<nat p. \<forall>c<nat p.
      (\<Sum>b<nat p. (\<Sum>i<nat n. x_design ! i ! a * y_weights ! i * x_design ! i ! b)
                    * linalg_inv (matmul (matmul (T x_design) (diag y_weights)) x_design) ! b ! c)
      = (if a = c then 1 else 0)"
    using cell_inputs_inverse_entries(2) [OF assms(1)] by blast
  from u have u': "one_sided_PL_magnitude t_ppf alpha n p (s_value r n p) ?h
           = Finite (t_ppf (1 - alpha / 2) (n - p)
                     * sqrt ((\<Sum>x\<leftarrow>r. x\<^sup>2) / of_int (n - p)
                        * (1 + (\<Sum>b<nat p. (\<Sum>a<nat p. q ! a ! 0
                              * linalg_inv (matmul (T x_design) x_design) ! a ! b) * q ! b ! 0))))"
    by (simp only: eh [symmetric])
  from v have v': "\<exists>s2. s_squared_value y_weights r n p = Inr s2 \<and>
             one_sided_PL_magnitude_weighted t_ppf alpha n p s2 ?hw
               = Finite (t_ppf (1 - alpha / 2) (n - p) * sqrt (?s2
                   * (1 + (\<Sum>b<nat p. (\<Sum>a<nat p. q ! a ! 0
                        * linalg_inv (matmul (matmul (T x_design) (diag y_weights)) x_design) ! a ! b)
                          * q ! b ! 0))))"
    by (simp only: ehw [symmetric])
  show ?thesis
    unfolding Let_def using i eh u' iw ehw v' by blast
qed

theorem prediction_halfwidth_witness:
  "inner_sqrt_term inv_2x2 [[1, 0], [1, 1], [1, 2]] [[1], [6]] = 77 / 6
   \<and> one_sided_PL_magnitude t_ppf_df1 (1 / 2) 3 2 (s_value (residuals [0, 1, 2] [1, 3, 6] 2 1) 3 2)
      (inner_sqrt_term inv_2x2 [[1, 0], [1, 1], [1, 2]] [[1], [6]]) = Finite (sqrt (83 / 6))
   \<and> inner_sqrt_term_weighted inv_2x2 [[1, 0], [1, 1], [1, 2]] [2, 2, 2] [[1], [6]] = 77 / 12
   \<and> (\<exists>s2. s_squared_value [2, 2, 2] (residuals [0, 1, 2] [1, 3, 6] 2 1) 3 2 = Inr s2 \<and>
         one_sided_PL_magnitude_weighted t_ppf_df1 (1 / 2) 3 2 s2
           (inner_sqrt_term_weighted inv_2x2 [[1, 0], [1, 1], [1, 2]] [2, 2, 2] [[1], [6]])
         = Finite (sqrt (89 / 6)))"
proof -
  have a0: "(0::real) < 1 / 2" and a1: "(1/2::real) < 1" by simp_all
  note t = prediction_halfwidth [OF example_cell_inputs a0 a1, of t_ppf_df1,
      unfolded Let_def example_inverse example_inverse_weighted
        example_quadratic_form example_quadratic_form_weighted]
  have r: "(\<Sum>x\<leftarrow>residuals [0, 1, 2] [1, 3, 6] 2 1. x\<^sup>2) = 1"
    and rw: "(\<Sum>(w, x)\<leftarrow>zip [2, 2, 2] (residuals [0, 1, 2] [1, 3, 6] 2 1). w * x\<^sup>2) = 2"
    by (simp_all add: residuals_def)
  from t have "inner_sqrt_term inv_2x2 [[1, 0], [1, 1], [1, 2]] [[1], [6]] = 77 / 6"
    and "inner_sqrt_term_weighted inv_2x2 [[1, 0], [1, 1], [1, 2]] [2, 2, 2] [[1], [6]] = 77 / 12"
    by blast+
  moreover from t
  have "one_sided_PL_magnitude t_ppf_df1 (1 / 2) 3 2 (s_value (residuals [0, 1, 2] [1, 3, 6] 2 1) 3 2)
      (inner_sqrt_term inv_2x2 [[1, 0], [1, 1], [1, 2]] [[1], [6]])
      = Finite (t_ppf_df1 (1 - 1 / 2 / 2) (3 - 2)
          * sqrt ((\<Sum>x\<leftarrow>residuals [0, 1, 2] [1, 3, 6] 2 1. x\<^sup>2) / real_of_int (3 - 2)
                  * (1 + 77 / 6)))"
    by blast
  then have "one_sided_PL_magnitude t_ppf_df1 (1 / 2) 3 2
      (s_value (residuals [0, 1, 2] [1, 3, 6] 2 1) 3 2)
      (inner_sqrt_term inv_2x2 [[1, 0], [1, 1], [1, 2]] [[1], [6]]) = Finite (sqrt (83 / 6))"
    by (simp add: r example_quantile)
  moreover from t
  have "\<exists>s2. s_squared_value [2, 2, 2] (residuals [0, 1, 2] [1, 3, 6] 2 1) 3 2 = Inr s2 \<and>
         one_sided_PL_magnitude_weighted t_ppf_df1 (1 / 2) 3 2 s2
           (inner_sqrt_term_weighted inv_2x2 [[1, 0], [1, 1], [1, 2]] [2, 2, 2] [[1], [6]])
         = Finite (t_ppf_df1 (1 - 1 / 2 / 2) (3 - 2)
            * sqrt ((\<Sum>(w, x)\<leftarrow>zip [2, 2, 2] (residuals [0, 1, 2] [1, 3, 6] 2 1). w * x\<^sup>2)
                    / real_of_int (3 - 2) * (1 + 77 / 12)))"
    by blast
  then have "\<exists>s2. s_squared_value [2, 2, 2] (residuals [0, 1, 2] [1, 3, 6] 2 1) 3 2 = Inr s2 \<and>
         one_sided_PL_magnitude_weighted t_ppf_df1 (1 / 2) 3 2 s2
           (inner_sqrt_term_weighted inv_2x2 [[1, 0], [1, 1], [1, 2]] [2, 2, 2] [[1], [6]])
         = Finite (sqrt (89 / 6))"
    by (simp add: rw example_quantile)
  ultimately show ?thesis by blast
qed


text \<open>
  C4, as the cells have it. For the data of a cell, a significance level strictly between
  0 and 1 and a strictly positive residual scale (\<open>s\<close> in the unweighted cell, \<open>s2\<close> in the
  weighted one), the prediction half-width is strictly greater than the confidence
  half-width.
\<close>

theorem prediction_exceeds_confidence:
  assumes "cell_inputs linalg_inv x_design y_weights q r n p"
    and "symmetric_quantile t_ppf (n - p)" and "0 < alpha" and "alpha < 1"
    and "h = inner_sqrt_term linalg_inv x_design q"
    and "hw = inner_sqrt_term_weighted linalg_inv x_design y_weights q"
    and "s_value r n p = Finite s" and "0 < s"
    and "s_squared_value y_weights r n p = Inr (Finite s2)" and "0 < s2"
  shows "npf_less (one_sided_CL_magnitude t_ppf alpha n p (s_value r n p) h)
                  (one_sided_PL_magnitude t_ppf alpha n p (s_value r n p) h)
       \<and> npf_less (one_sided_CL_magnitude_weighted t_ppf alpha n p (Finite s2) hw)
                  (one_sided_PL_magnitude_weighted t_ppf alpha n p (Finite s2) hw)"
proof -
  let ?t = "t_ppf (1 - alpha / 2) (n - p)"
  have h: "0 \<le> h" and hw: "0 \<le> hw"
    unfolding assms(5,6) using assms(1) by (rule cell_inputs_leverage)+
  have t: "0 < ?t" using assms(2-4) by (rule symmetric_quantile_upper_pos)
  have "sqrt h < sqrt (1 + h)" by simp
  moreover have "0 < ?t * s" using t assms(8) by simp
  ultimately have "?t * s * sqrt h < ?t * s * sqrt (1 + h)"
    by (rule mult_strict_left_mono)
  then have u: "npf_less (one_sided_CL_magnitude t_ppf alpha n p (s_value r n p) h)
                  (one_sided_PL_magnitude t_ppf alpha n p (s_value r n p) h)"
    using h assms(7) by (simp add: one_sided_CL_magnitude_def one_sided_PL_magnitude_def)
  have "s2 * hw < s2 + s2 * hw" using assms(10) by simp
  then have "sqrt (s2 * hw) < sqrt (s2 + s2 * hw)" by simp
  then have "?t * sqrt (s2 * hw) < ?t * sqrt (s2 + s2 * hw)"
    using t by (rule mult_strict_left_mono)
  moreover have "0 \<le> s2 * hw" using hw assms(10) by simp
  moreover from this have "0 \<le> s2 + s2 * hw" using assms(10) by simp
  ultimately have "npf_less (one_sided_CL_magnitude_weighted t_ppf alpha n p (Finite s2) hw)
                  (one_sided_PL_magnitude_weighted t_ppf alpha n p (Finite s2) hw)"
    by (simp add: CL_weighted_value PL_weighted_value)
  with u show ?thesis by simp
qed

theorem prediction_exceeds_confidence_witness:
  "npf_less (one_sided_CL_magnitude t_ppf_df1 (1 / 2) 3 2
               (s_value (residuals [0, 1, 2] [1, 3, 6] 2 1) 3 2)
               (inner_sqrt_term inv_2x2 [[1, 0], [1, 1], [1, 2]] [[1], [6]]))
            (one_sided_PL_magnitude t_ppf_df1 (1 / 2) 3 2
               (s_value (residuals [0, 1, 2] [1, 3, 6] 2 1) 3 2)
               (inner_sqrt_term inv_2x2 [[1, 0], [1, 1], [1, 2]] [[1], [6]]))
   \<and> npf_less (one_sided_CL_magnitude_weighted t_ppf_df1 (1 / 2) 3 2 (Finite 2)
               (inner_sqrt_term_weighted inv_2x2 [[1, 0], [1, 1], [1, 2]] [2, 2, 2] [[1], [6]]))
            (one_sided_PL_magnitude_weighted t_ppf_df1 (1 / 2) 3 2 (Finite 2)
               (inner_sqrt_term_weighted inv_2x2 [[1, 0], [1, 1], [1, 2]] [2, 2, 2] [[1], [6]]))"
proof -
  have a0: "(0::real) < 1 / 2" and a1: "(1/2::real) < 1" and s: "(0::real) < 1"
    and s2: "(0::real) < 2" by simp_all
  show ?thesis
    by (rule prediction_exceeds_confidence [OF example_cell_inputs t_ppf_df1_symmetric_quantile
          a0 a1 refl refl example_s_value s example_s_squared_value s2])
qed

text \<open>
  Without a positive residual scale the two half-widths are equal: the observations
  \<open>1, 3, 5\<close> at \<open>x = 0, 1, 2\<close> lie on the fitted line \<open>y = 2 * x + 1\<close>, every residual is
  \<open>0\<close>, and at the query \<open>x = 6\<close> both half-widths are \<open>0\<close>.
\<close>

theorem prediction_equals_confidence_on_exact_fit:
  "\<not> npf_less (one_sided_CL_magnitude t_ppf_df1 (1 / 2) 3 2
               (s_value (residuals [0, 1, 2] [1, 3, 5] 2 1) 3 2)
               (inner_sqrt_term inv_2x2 [[1, 0], [1, 1], [1, 2]] [[1], [6]]))
            (one_sided_PL_magnitude t_ppf_df1 (1 / 2) 3 2
               (s_value (residuals [0, 1, 2] [1, 3, 5] 2 1) 3 2)
               (inner_sqrt_term inv_2x2 [[1, 0], [1, 1], [1, 2]] [[1], [6]]))"
  by (simp add: one_sided_CL_magnitude_def one_sided_PL_magnitude_def s_value_def
      residuals_def linalg_norm_def example_leverage)

text \<open>
  C7. For the data of a cell and significance levels \<open>a < b\<close> strictly between 0 and 1, the
  confidence and the prediction half-width at \<open>a\<close> are at least those at \<open>b\<close>, in the
  unweighted and in the weighted cell.
\<close>

theorem halfwidths_grow_as_significance_decreases:
  assumes "cell_inputs linalg_inv x_design y_weights q r n p"
    and "symmetric_quantile t_ppf (n - p)" and "0 < a" and "a < b" and "b < 1"
    and "h = inner_sqrt_term linalg_inv x_design q"
    and "hw = inner_sqrt_term_weighted linalg_inv x_design y_weights q"
  shows "npf_le (one_sided_CL_magnitude t_ppf b n p (s_value r n p) h)
                (one_sided_CL_magnitude t_ppf a n p (s_value r n p) h)
       \<and> npf_le (one_sided_PL_magnitude t_ppf b n p (s_value r n p) h)
                (one_sided_PL_magnitude t_ppf a n p (s_value r n p) h)
       \<and> (\<exists>s2. s_squared_value y_weights r n p = Inr s2
              \<and> npf_le (one_sided_CL_magnitude_weighted t_ppf b n p s2 hw)
                       (one_sided_CL_magnitude_weighted t_ppf a n p s2 hw)
              \<and> npf_le (one_sided_PL_magnitude_weighted t_ppf b n p s2 hw)
                       (one_sided_PL_magnitude_weighted t_ppf a n p s2 hw))"
proof -
  let ?ta = "t_ppf (1 - a / 2) (n - p)" and ?tb = "t_ppf (1 - b / 2) (n - p)"
  let ?s = "linalg_norm r / sqrt (of_int (n - p))"
  let ?s2 = "(\<Sum>(w, x)\<leftarrow>zip y_weights r. w * x\<^sup>2) / real_of_int (n - p)"
  note np = cell_inputs_counts(1) [OF assms(1)] and w = cell_inputs_counts(2) [OF assms(1)]
  have h: "0 \<le> h" and hw: "0 \<le> hw"
    unfolding assms(6,7) using assms(1) by (rule cell_inputs_leverage)+
  have q1: "0 < 1 - b / 2" using assms(5) by simp
  have q12: "1 - b / 2 \<le> 1 - a / 2" using assms(4) by simp
  have q2: "1 - a / 2 < 1" using assms(3) by simp
  have t: "?tb \<le> ?ta" using assms(2) q1 q12 q2 by (rule symmetric_quantile_mono)
  have s: "0 \<le> ?s" using np by (simp add: linalg_norm_nonneg)
  have h1: "0 \<le> 1 + h" using h by simp
  have ts: "?tb * ?s \<le> ?ta * ?s" using t s by (rule mult_right_mono)
  have "0 \<le> sqrt h" using h by simp
  with ts have "?tb * ?s * sqrt h \<le> ?ta * ?s * sqrt h"
    by (rule mult_right_mono)
  then have cl: "npf_le (one_sided_CL_magnitude t_ppf b n p (s_value r n p) h)
                (one_sided_CL_magnitude t_ppf a n p (s_value r n p) h)"
    by (simp only: CL_value [OF np h] npf_le.simps)
  have "0 \<le> sqrt (1 + h)" using h1 by simp
  with ts have "?tb * ?s * sqrt (1 + h) \<le> ?ta * ?s * sqrt (1 + h)"
    by (rule mult_right_mono)
  then have pl: "npf_le (one_sided_PL_magnitude t_ppf b n p (s_value r n p) h)
                (one_sided_PL_magnitude t_ppf a n p (s_value r n p) h)"
    by (simp only: PL_value [OF np h1] npf_le.simps)
  have s2: "0 \<le> ?s2" using np w by (rule weighted_variance_nonneg)
  then have c: "0 \<le> ?s2 * hw" using hw by (rule mult_nonneg_nonneg)
  with s2 have d: "0 \<le> ?s2 + ?s2 * hw" by (rule add_nonneg_nonneg)
  have "0 \<le> sqrt (?s2 * hw)" using c by simp
  with t have "?tb * sqrt (?s2 * hw) \<le> ?ta * sqrt (?s2 * hw)"
    by (rule mult_right_mono)
  then have clw: "npf_le (one_sided_CL_magnitude_weighted t_ppf b n p (Finite ?s2) hw)
                       (one_sided_CL_magnitude_weighted t_ppf a n p (Finite ?s2) hw)"
    by (simp only: CL_weighted_value [OF c] npf_le.simps)
  have "0 \<le> sqrt (?s2 + ?s2 * hw)" using d by simp
  with t have "?tb * sqrt (?s2 + ?s2 * hw) \<le> ?ta * sqrt (?s2 + ?s2 * hw)"
    by (rule mult_right_mono)
  then have plw: "npf_le (one_sided_PL_magnitude_weighted t_ppf b n p (Finite ?s2) hw)
                       (one_sided_PL_magnitude_weighted t_ppf a n p (Finite ?s2) hw)"
    by (simp only: PL_weighted_value [OF d] npf_le.simps)
  from s_squared_value_finite [OF np, of y_weights r] clw plw
  have "\<exists>s2. s_squared_value y_weights r n p = Inr s2
              \<and> npf_le (one_sided_CL_magnitude_weighted t_ppf b n p s2 hw)
                       (one_sided_CL_magnitude_weighted t_ppf a n p s2 hw)
              \<and> npf_le (one_sided_PL_magnitude_weighted t_ppf b n p s2 hw)
                       (one_sided_PL_magnitude_weighted t_ppf a n p s2 hw)"
    by blast
  with cl pl show ?thesis by blast
qed

theorem halfwidths_grow_as_significance_decreases_witness:
  "npf_le (one_sided_CL_magnitude t_ppf_df1 (1 / 2) 3 2
             (s_value (residuals [0, 1, 2] [1, 3, 6] 2 1) 3 2)
             (inner_sqrt_term inv_2x2 [[1, 0], [1, 1], [1, 2]] [[1], [6]]))
          (one_sided_CL_magnitude t_ppf_df1 (1 / 4) 3 2
             (s_value (residuals [0, 1, 2] [1, 3, 6] 2 1) 3 2)
             (inner_sqrt_term inv_2x2 [[1, 0], [1, 1], [1, 2]] [[1], [6]]))
   \<and> npf_le (one_sided_PL_magnitude t_ppf_df1 (1 / 2) 3 2
             (s_value (residuals [0, 1, 2] [1, 3, 6] 2 1) 3 2)
             (inner_sqrt_term inv_2x2 [[1, 0], [1, 1], [1, 2]] [[1], [6]]))
          (one_sided_PL_magnitude t_ppf_df1 (1 / 4) 3 2
             (s_value (residuals [0, 1, 2] [1, 3, 6] 2 1) 3 2)
             (inner_sqrt_term inv_2x2 [[1, 0], [1, 1], [1, 2]] [[1], [6]]))
   \<and> npf_le (one_sided_CL_magnitude_weighted t_ppf_df1 (1 / 2) 3 2 (Finite 2)
             (inner_sqrt_term_weighted inv_2x2 [[1, 0], [1, 1], [1, 2]] [2, 2, 2] [[1], [6]]))
          (one_sided_CL_magnitude_weighted t_ppf_df1 (1 / 4) 3 2 (Finite 2)
             (inner_sqrt_term_weighted inv_2x2 [[1, 0], [1, 1], [1, 2]] [2, 2, 2] [[1], [6]]))
   \<and> npf_le (one_sided_PL_magnitude_weighted t_ppf_df1 (1 / 2) 3 2 (Finite 2)
             (inner_sqrt_term_weighted inv_2x2 [[1, 0], [1, 1], [1, 2]] [2, 2, 2] [[1], [6]]))
          (one_sided_PL_magnitude_weighted t_ppf_df1 (1 / 4) 3 2 (Finite 2)
             (inner_sqrt_term_weighted inv_2x2 [[1, 0], [1, 1], [1, 2]] [2, 2, 2] [[1], [6]]))"
proof -
  have a0: "(0::real) < 1 / 4" and ab: "(1/4::real) < 1 / 2" and b1: "(1/2::real) < 1"
    by simp_all
  show ?thesis
    using halfwidths_grow_as_significance_decreases
      [OF example_cell_inputs t_ppf_df1_symmetric_quantile a0 ab b1 refl refl]
    by (simp only: example_s_squared_value) simp
qed




section \<open>As many observations as parameters\<close>

text \<open>
  C6, as the cells have it. The cells compare \<open>n\<close> and \<open>p\<close> nowhere. Take \<open>n = p\<close>: a square
  design matrix, a query of \<open>p\<close> entries, \<open>n\<close> residuals and \<open>n\<close> positive weights, with
  \<open>linalg_inv\<close> returning the inverse of \<open>X\<^sup>T X\<close> and of \<open>X\<^sup>T W X\<close>, so that no statement of
  the cells raises. Then the residual scale is a division by zero, which numpy evaluates
  to a value that is not a finite number, in the unweighted cell (\<open>s_value\<close>) and in the
  weighted one (\<open>s_squared_value\<close>), and the confidence and prediction half-widths
  computed from it at the leverage of the query are not finite numbers either. (scipy's
  quantile is itself \<^verbatim>\<open>nan\<close> at zero degrees of freedom; the products are not finite
  whatever it returns.)
\<close>

theorem no_error_when_n_equals_p:
  assumes "n = p" and "0 < p"
    and "is_mat (nat n) (nat p) x_design" and "is_mat (nat p) 1 q"
    and "length r = nat n" and "length y_weights = nat n" and "\<forall>w\<in>set y_weights. 0 < w"
    and "is_inverse (nat p) (matmul (T x_design) x_design)
           (linalg_inv (matmul (T x_design) x_design))"
    and "is_inverse (nat p) (matmul (matmul (T x_design) (diag y_weights)) x_design)
           (linalg_inv (matmul (matmul (T x_design) (diag y_weights)) x_design))"
  shows "s_value r n p = NotFinite
       \<and> one_sided_CL_magnitude t_ppf alpha n p (s_value r n p)
           (inner_sqrt_term linalg_inv x_design q) = NotFinite
       \<and> one_sided_PL_magnitude t_ppf alpha n p (s_value r n p)
           (inner_sqrt_term linalg_inv x_design q) = NotFinite
       \<and> (\<exists>s2. s_squared_value y_weights r n p = Inr s2 \<and> s2 = NotFinite
             \<and> one_sided_CL_magnitude_weighted t_ppf alpha n p s2
                 (inner_sqrt_term_weighted linalg_inv x_design y_weights q) = NotFinite
             \<and> one_sided_PL_magnitude_weighted t_ppf alpha n p s2
                 (inner_sqrt_term_weighted linalg_inv x_design y_weights q) = NotFinite)"
proof -
  have s: "s_value r n p = NotFinite"
    using assms(1) by (simp add: s_value_def)
  have "0 < length r" and "0 < length y_weights" using assms(1,2,5,6) by simp_all
  then have "zip y_weights r \<noteq> []"
    by (cases y_weights; cases r) simp_all
  then have "s_squared_value y_weights r n p = Inr NotFinite"
    using assms(1) by (simp add: s_squared_value_def)
  with s show ?thesis
    by (simp add: one_sided_CL_magnitude_def one_sided_PL_magnitude_def
        one_sided_CL_magnitude_weighted_def one_sided_PL_magnitude_weighted_def)
qed

lemma example_square_gram_inverse:
  "is_inverse (nat 2) (matmul (T [[1, 0], [1, 1]]) [[1, 0], [1, 1]])
     (inv_2x2 (matmul (T [[1, 0], [1, 1]]) [[1, 0], [1, 1]]))"
  by (simp add: is_inverse_def is_mat_def matmul_def T_def dot_def inv_2x2_def eye_def
      numeral_2_eq_2)

lemma example_square_weighted_gram_inverse:
  "is_inverse (nat 2) (matmul (matmul (T [[1, 0], [1, 1]]) (diag [1, 1])) [[1, 0], [1, 1]])
     (inv_2x2 (matmul (matmul (T [[1, 0], [1, 1]]) (diag [1, 1])) [[1, 0], [1, 1]]))"
  by (simp add: is_inverse_def is_mat_def matmul_def T_def dot_def inv_2x2_def eye_def diag_def
      numeral_2_eq_2)

theorem no_error_when_n_equals_p_witness:
  "one_sided_CL_magnitude t_ppf_df1 (1 / 2) 2 2 (s_value (residuals [0, 1] [1, 3] 2 1) 2 2)
      (inner_sqrt_term inv_2x2 [[1, 0], [1, 1]] [[1], [6]]) = NotFinite
   \<and> one_sided_PL_magnitude t_ppf_df1 (1 / 2) 2 2 (s_value (residuals [0, 1] [1, 3] 2 1) 2 2)
      (inner_sqrt_term inv_2x2 [[1, 0], [1, 1]] [[1], [6]]) = NotFinite
   \<and> one_sided_CL_magnitude_weighted t_ppf_df1 (1 / 2) 2 2 NotFinite
      (inner_sqrt_term_weighted inv_2x2 [[1, 0], [1, 1]] [1, 1] [[1], [6]]) = NotFinite
   \<and> one_sided_PL_magnitude_weighted t_ppf_df1 (1 / 2) 2 2 NotFinite
      (inner_sqrt_term_weighted inv_2x2 [[1, 0], [1, 1]] [1, 1] [[1], [6]]) = NotFinite"
proof -
  have np: "(2::int) = 2" and p: "(0::int) < 2" by simp_all
  have X: "is_mat (nat 2) (nat 2) [[1, 0], [1, 1]]" and q: "is_mat (nat 2) 1 [[1], [6]]"
    by (simp_all add: is_mat_def)
  have r: "length (residuals [0, 1] [1, 3] 2 1) = nat 2" by (simp add: residuals_def)
  have l: "length [1, 1 :: real] = nat 2" and w: "\<forall>w\<in>set [1, 1]. (0::real) < w" by simp_all
  from no_error_when_n_equals_p [OF np p X q r l w example_square_gram_inverse
      example_square_weighted_gram_inverse, of t_ppf_df1 "1 / 2"]
  show ?thesis by blast
qed

text \<open>
  Two observations and two parameters: the line \<open>y = 2 * x + 1\<close> through \<open>(0, 1)\<close> and
  \<open>(1, 3)\<close> leaves the residuals \<open>0, 0\<close>. Both cells return, with a value that is not a
  number, and nothing is raised.
\<close>

theorem n_equals_p_returns_nan:
  "s_value (residuals [0, 1] [1, 3] 2 1) 2 2 = NotFinite
   \<and> s_squared_value [1, 1] (residuals [0, 1] [1, 3] 2 1) 2 2 = Inr NotFinite"
  by (simp add: s_value_def s_squared_value_def residuals_def linalg_norm_def)


section \<open>The design matrix\<close>

lemma ones_is_mat: "is_mat n p (ones n p)"
  by (simp add: ones_def is_mat_def)

lemma ones_nth: "i < n \<Longrightarrow> k < p \<Longrightarrow> ones n p ! i ! k = 1"
  by (simp add: ones_def)

lemma set_col_ok:
  assumes A: "is_mat n p A" and j: "j < p" and v: "length v = n"
  shows "\<exists>A'. set_col p A j v = Inr A' \<and> is_mat n p A' \<and>
           (\<forall>i<n. \<forall>k<p. A' ! i ! k = (if k = j then v ! i else A ! i ! k))"
proof -
  let ?A' = "map2 (\<lambda>row x. row[j := x]) A v"
  have lA: "length A = n" and rows: "\<forall>row\<in>set A. length row = p"
    using A by (simp_all add: is_mat_def)
  have r: "set_col p A j v = Inr ?A'" using v lA j by (simp add: set_col_def)
  have m: "is_mat n p ?A'"
    using lA v rows by (auto simp: is_mat_def dest: set_zip_leftD)
  have e: "?A' ! i ! k = (if k = j then v ! i else A ! i ! k)" if i: "i < n" and k: "k < p" for i k
  proof -
    have "length (A ! i) = p" using rows lA i by simp
    with i k j lA v show ?thesis by simp
  qed
  from r m e show ?thesis by blast
qed

text \<open>
  C8. For three predictor columns of length \<open>n\<close> each and \<open>p = 4\<close>, as the cell sets it,
  the cell's construction raises nothing and returns a matrix of \<open>n\<close> rows and \<open>p\<close>
  columns whose column \<open>0\<close> is all ones and whose columns \<open>1\<close>, \<open>2\<close> and \<open>3\<close> are the three
  predictor columns, in the order given.
\<close>

theorem x_design_multivariate_columns:
  assumes "length a = n" and "length b = n" and "length c = n" and "p = 4"
  shows "\<exists>X. x_design_multivariate n p a b c = Inr X \<and> is_mat n p X
           \<and> (\<forall>i<n. X ! i ! 0 = 1 \<and> X ! i ! 1 = a ! i \<and> X ! i ! 2 = b ! i \<and> X ! i ! 3 = c ! i)"
proof -
  have j1: "1 < p" and j2: "2 < p" and j3: "3 < p" and j0: "0 < p" using assms(4) by simp_all
  from set_col_ok [OF ones_is_mat j1 assms(1)]
  obtain x1 where r1: "set_col p (ones n p) 1 a = Inr x1" and m1: "is_mat n p x1"
    and e1: "\<forall>i<n. \<forall>k<p. x1 ! i ! k = (if k = 1 then a ! i else ones n p ! i ! k)"
    by blast
  from set_col_ok [OF m1 j2 assms(2)]
  obtain x2 where r2: "set_col p x1 2 b = Inr x2" and m2: "is_mat n p x2"
    and e2: "\<forall>i<n. \<forall>k<p. x2 ! i ! k = (if k = 2 then b ! i else x1 ! i ! k)"
    by blast
  from set_col_ok [OF m2 j3 assms(3)]
  obtain X where r3: "set_col p x2 3 c = Inr X" and m3: "is_mat n p X"
    and e3: "\<forall>i<n. \<forall>k<p. X ! i ! k = (if k = 3 then c ! i else x2 ! i ! k)"
    by blast
  have r: "x_design_multivariate n p a b c = Inr X"
    unfolding x_design_multivariate_def by (simp only: r1 r2 r3 sum.case)
  have "X ! i ! 0 = 1 \<and> X ! i ! 1 = a ! i \<and> X ! i ! 2 = b ! i \<and> X ! i ! 3 = c ! i"
    if i: "i < n" for i
  proof -
    have "X ! i ! 0 = 1"
      using e3 e2 e1 i j0 by (simp add: ones_nth)
    moreover have "X ! i ! 1 = a ! i"
      using e3 e2 e1 i j1 by simp
    moreover have "X ! i ! 2 = b ! i"
      using e3 e2 i j2 by simp
    moreover have "X ! i ! 3 = c ! i"
      using e3 i j3 by simp
    ultimately show ?thesis by blast
  qed
  with r m3 show ?thesis by blast
qed

theorem x_design_multivariate_columns_witness:
  "x_design_multivariate 2 4 [5, 6] [7, 8] [9, 10] = Inr [[1, 5, 7, 9], [1, 6, 8, 10]]"
proof -
  have a: "length [5, 6 :: real] = 2" and b: "length [7, 8 :: real] = 2"
    and c: "length [9, 10 :: real] = 2" and p: "(4::nat) = 4" by simp_all
  from x_design_multivariate_columns [OF a b c p]
  obtain X where r: "x_design_multivariate 2 4 [5, 6] [7, 8] [9, 10] = Inr X"
    and m: "is_mat 2 4 X"
    and e: "\<forall>i<2. X ! i ! 0 = 1 \<and> X ! i ! 1 = [5, 6] ! i \<and> X ! i ! 2 = [7, 8] ! i
              \<and> X ! i ! 3 = [9, 10] ! i"
    by blast
  have "X = [[1, 5, 7, 9], [1, 6, 8, 10]]"
  proof (rule mat_eqI [OF m])
    show "is_mat 2 4 [[1, 5, 7, 9], [1, 6, 8, 10]]" by (simp add: is_mat_def)
    fix i j :: nat assume i: "i < 2" and j: "j < 4"
    from i have "i = 0 \<or> i = 1" by auto
    moreover from j have "j = 0 \<or> j = 1 \<or> j = 2 \<or> j = 3" by auto
    moreover have "X ! 0 ! 0 = 1" "X ! 0 ! 1 = 5" "X ! 0 ! 2 = 7" "X ! 0 ! 3 = 9"
      using e [rule_format, of 0] by simp_all
    moreover have "X ! 1 ! 0 = 1" "X ! 1 ! 1 = 6" "X ! 1 ! 2 = 8" "X ! 1 ! 3 = 10"
      using e [rule_format, of 1] by simp_all
    ultimately show "X ! i ! j = [[1, 5, 7, 9], [1, 6, 8, 10]] ! i ! j"
      by (elim disjE) (simp_all add: numeral_2_eq_2 numeral_3_eq_3)
  qed
  with r show ?thesis by simp
qed


section \<open>Constant weights\<close>

lemma smult_is_mat: "is_mat r c A \<Longrightarrow> is_mat r c (smult k A)"
  by (simp add: smult_def is_mat_def)

lemma smult_nth:
  assumes "is_mat r c A" "i < r" "j < c"
  shows "smult k A ! i ! j = k * A ! i ! j"
  using assms by (simp add: smult_def is_mat_def)

lemma matmul_assoc:
  assumes A: "is_mat r m A" and B: "is_mat m k B" and C: "is_mat k c C"
    and m: "0 < m" and k: "0 < k"
  shows "matmul (matmul A B) C = matmul A (matmul B C)"
proof (rule mat_eqI)
  have AB: "is_mat r k (matmul A B)" using A B m by (rule matmul_is_mat)
  have BC: "is_mat m c (matmul B C)" using B C k by (rule matmul_is_mat)
  show "is_mat r c (matmul (matmul A B) C)" using AB C k by (rule matmul_is_mat)
  show "is_mat r c (matmul A (matmul B C))" using A BC m by (rule matmul_is_mat)
  fix i j assume i: "i < r" and j: "j < c"
  have "matmul (matmul A B) C ! i ! j = (\<Sum>b<k. matmul A B ! i ! b * C ! b ! j)"
    using AB C k i j by (rule matmul_nth)
  also have "\<dots> = (\<Sum>b<k. (\<Sum>a<m. A ! i ! a * B ! a ! b) * C ! b ! j)"
    using A B m i by (intro sum.cong) (simp_all add: matmul_nth)
  also have "\<dots> = (\<Sum>b<k. \<Sum>a<m. A ! i ! a * (B ! a ! b * C ! b ! j))"
    by (simp add: sum_distrib_right mult.assoc)
  also have "\<dots> = (\<Sum>a<m. \<Sum>b<k. A ! i ! a * (B ! a ! b * C ! b ! j))"
    by (rule sum.swap)
  also have "\<dots> = (\<Sum>a<m. A ! i ! a * (\<Sum>b<k. B ! a ! b * C ! b ! j))"
    by (simp add: sum_distrib_left)
  also have "\<dots> = (\<Sum>a<m. A ! i ! a * matmul B C ! a ! j)"
    using B C k j by (intro sum.cong) (simp_all add: matmul_nth)
  also have "\<dots> = matmul A (matmul B C) ! i ! j"
    using matmul_nth [OF A BC m i j] by simp
  finally show "matmul (matmul A B) C ! i ! j = matmul A (matmul B C) ! i ! j" .
qed

lemma matmul_eye_left:
  assumes B: "is_mat k c B" and k: "0 < k"
  shows "matmul (eye k) B = B"
proof (rule mat_eqI)
  show "is_mat k c (matmul (eye k) B)" using eye_is_mat B k by (rule matmul_is_mat)
  show "is_mat k c B" by (rule B)
  fix i j assume i: "i < k" and j: "j < c"
  have "matmul (eye k) B ! i ! j = (\<Sum>a<k. eye k ! i ! a * B ! a ! j)"
    using eye_is_mat B k i j by (rule matmul_nth)
  also have "\<dots> = (\<Sum>a<k. (if i = a then 1 else 0) * B ! a ! j)"
    using i by (intro sum.cong) (simp_all add: eye_nth)
  also have "\<dots> = B ! i ! j" using i by (rule sum_delta_left)
  finally show "matmul (eye k) B ! i ! j = B ! i ! j" .
qed

lemma matmul_smult_left:
  assumes A: "is_mat r m A" and B: "is_mat m c B" and m: "0 < m"
  shows "matmul (smult k A) B = smult k (matmul A B)"
proof (rule mat_eqI)
  have kA: "is_mat r m (smult k A)" using A by (rule smult_is_mat)
  have AB: "is_mat r c (matmul A B)" using A B m by (rule matmul_is_mat)
  show "is_mat r c (matmul (smult k A) B)" using kA B m by (rule matmul_is_mat)
  show "is_mat r c (smult k (matmul A B))" using AB by (rule smult_is_mat)
  fix i j assume i: "i < r" and j: "j < c"
  have "matmul (smult k A) B ! i ! j = (\<Sum>a<m. smult k A ! i ! a * B ! a ! j)"
    using kA B m i j by (rule matmul_nth)
  also have "\<dots> = (\<Sum>a<m. k * (A ! i ! a * B ! a ! j))"
    using A i by (intro sum.cong) (simp_all add: smult_nth mult.assoc)
  also have "\<dots> = k * (\<Sum>a<m. A ! i ! a * B ! a ! j)"
    by (simp add: sum_distrib_left)
  also have "\<dots> = k * matmul A B ! i ! j"
    using matmul_nth [OF A B m i j] by simp
  also have "\<dots> = smult k (matmul A B) ! i ! j"
    using smult_nth [OF AB i j] by simp
  finally show "matmul (smult k A) B ! i ! j = smult k (matmul A B) ! i ! j" .
qed

lemma weighted_product_is_mat:
  assumes X: "is_mat n p X" and Y: "is_mat n c Y" and w: "length w = n" and n: "0 < n"
  shows "is_mat p c (matmul (matmul (T X) (diag w)) Y)"
proof -
  have TX: "is_mat p n (T X)" using X n by (rule T_is_mat)
  have D: "is_mat n n (diag w)" using diag_is_mat [of w] w by simp
  have TD: "is_mat p n (matmul (T X) (diag w))" using TX D n by (rule matmul_is_mat)
  show ?thesis using TD Y n by (rule matmul_is_mat)
qed

lemma eye_diag: "eye n = diag (replicate n 1)"
  by (simp add: eye_def diag_def)

lemma constant_weights_product:
  assumes X: "is_mat n p X" and Y: "is_mat n c Y" and n: "0 < n"
  shows "matmul (matmul (T X) (diag (replicate n k))) Y
         = smult k (matmul (matmul (T X) (eye n)) Y)"
proof (rule mat_eqI)
  have l1: "length (replicate n (1::real)) = n" and lk: "length (replicate n k) = n" by simp_all
  have m1: "is_mat p c (matmul (matmul (T X) (diag (replicate n 1))) Y)"
    using X Y l1 n by (rule weighted_product_is_mat)
  show "is_mat p c (matmul (matmul (T X) (diag (replicate n k))) Y)"
    using X Y lk n by (rule weighted_product_is_mat)
  show "is_mat p c (smult k (matmul (matmul (T X) (eye n)) Y))"
    unfolding eye_diag using m1 by (rule smult_is_mat)
  fix a b assume a: "a < p" and b: "b < c"
  have "matmul (matmul (T X) (diag (replicate n k))) Y ! a ! b
        = (\<Sum>i<n. X ! i ! a * replicate n k ! i * Y ! i ! b)"
    using X Y lk n a b by (rule weighted_product_nth)
  also have "\<dots> = (\<Sum>i<n. k * (X ! i ! a * replicate n 1 ! i * Y ! i ! b))"
    by (intro sum.cong) simp_all
  also have "\<dots> = k * (\<Sum>i<n. X ! i ! a * replicate n 1 ! i * Y ! i ! b)"
    by (simp only: sum_distrib_left)
  also have "\<dots> = k * matmul (matmul (T X) (diag (replicate n 1))) Y ! a ! b"
    using weighted_product_nth [OF X Y l1 n a b] by simp
  also have "\<dots> = smult k (matmul (matmul (T X) (eye n)) Y) ! a ! b"
    unfolding eye_diag using smult_nth [OF m1 a b] by simp
  finally show "matmul (matmul (T X) (diag (replicate n k))) Y ! a ! b
       = smult k (matmul (matmul (T X) (eye n)) Y) ! a ! b" .
qed

text \<open>
  C5. For a design matrix of \<open>n\<close> rows and \<open>p\<close> columns and observations of length \<open>n\<close>,
  the coefficients of the normal equations with every weight equal to one positive
  constant \<open>c\<close> are the coefficients of the unweighted normal equations, where
  \<open>linalg_inv\<close> returns the inverse of both normal-equations matrices.
\<close>

theorem constant_weights_same_coefficients:
  assumes X: "is_mat n p X" and y: "is_mat n 1 y" and n: "0 < n" and p: "0 < p"
    and c: "0 < c"
    and inv1: "is_inverse p (matmul (matmul (T X) (eye n)) X)
                 (linalg_inv (matmul (matmul (T X) (eye n)) X))"
    and invc: "is_inverse p (matmul (matmul (T X) (diag (replicate n c))) X)
                 (linalg_inv (matmul (matmul (T X) (diag (replicate n c))) X))"
  shows "normal_equations_coefficients linalg_inv X y (Some (replicate n c))
         = normal_equations_coefficients linalg_inv X y None"
proof -
  let ?G1 = "matmul (matmul (T X) (eye n)) X" and ?b1 = "matmul (matmul (T X) (eye n)) y"
  let ?Gc = "matmul (matmul (T X) (diag (replicate n c))) X"
  let ?bc = "matmul (matmul (T X) (diag (replicate n c))) y"
  let ?M1 = "linalg_inv ?G1" and ?Mc = "linalg_inv ?Gc"
  let ?beta = "matmul ?M1 ?b1"
  have l1: "length (replicate n (1::real)) = n" by simp
  have G1: "is_mat p p ?G1" unfolding eye_diag using X X l1 n by (rule weighted_product_is_mat)
  have b1: "is_mat p 1 ?b1" unfolding eye_diag using X y l1 n by (rule weighted_product_is_mat)
  have M1: "is_mat p p ?M1" and GM1: "matmul ?G1 ?M1 = eye p"
    using inv1 by (simp_all add: is_inverse_def)
  have Mc: "is_mat p p ?Mc" and MGc: "matmul ?Mc ?Gc = eye p"
    using invc by (simp_all add: is_inverse_def)
  have beta: "is_mat p 1 ?beta" using M1 b1 p by (rule matmul_is_mat)
  have Gc: "?Gc = smult c ?G1" using X X n by (rule constant_weights_product)
  have bc: "?bc = smult c ?b1" using X y n by (rule constant_weights_product)
  have "matmul ?G1 ?beta = matmul (matmul ?G1 ?M1) ?b1"
    using matmul_assoc [OF G1 M1 b1 p p] by simp
  also have "\<dots> = ?b1" unfolding GM1 using b1 p by (rule matmul_eye_left)
  finally have normal: "matmul ?G1 ?beta = ?b1" .
  have "matmul ?Mc ?bc = matmul ?Mc (smult c (matmul ?G1 ?beta))"
    by (simp only: bc normal)
  also have "\<dots> = matmul ?Mc (matmul (smult c ?G1) ?beta)"
    by (simp only: matmul_smult_left [OF G1 beta p])
  also have "\<dots> = matmul ?Mc (matmul ?Gc ?beta)"
    by (simp only: Gc [symmetric])
  also have "\<dots> = matmul (matmul ?Mc ?Gc) ?beta"
  proof -
    have "is_mat p p ?Gc" unfolding Gc using G1 by (rule smult_is_mat)
    from matmul_assoc [OF Mc this beta p p] show ?thesis by simp
  qed
  also have "\<dots> = ?beta" unfolding MGc using beta p by (rule matmul_eye_left)
  finally have "matmul ?Mc ?bc = ?beta" .
  moreover have "length X = n" using X by (simp add: is_mat_def)
  ultimately show ?thesis
    by (simp add: normal_equations_coefficients_def Let_def)
qed


lemma example_identity_gram_inverse:
  "is_inverse 2 (matmul (matmul (T [[1, 0], [1, 1], [1, 2]]) (eye 3)) [[1, 0], [1, 1], [1, 2]])
     (inv_2x2 (matmul (matmul (T [[1, 0], [1, 1], [1, 2]]) (eye 3)) [[1, 0], [1, 1], [1, 2]]))"
  by (simp add: is_inverse_def is_mat_def matmul_def T_def dot_def inv_2x2_def eye_def
      numeral_2_eq_2 numeral_3_eq_3)

lemma example_constant_gram_inverse:
  "is_inverse 2
     (matmul (matmul (T [[1, 0], [1, 1], [1, 2]]) (diag (replicate 3 2))) [[1, 0], [1, 1], [1, 2]])
     (inv_2x2 (matmul (matmul (T [[1, 0], [1, 1], [1, 2]]) (diag (replicate 3 2)))
                 [[1, 0], [1, 1], [1, 2]]))"
  by (simp add: is_inverse_def is_mat_def matmul_def T_def dot_def inv_2x2_def eye_def diag_def
      numeral_2_eq_2 numeral_3_eq_3)

lemma example_coefficients:
  "normal_equations_coefficients inv_2x2 [[1, 0], [1, 1], [1, 2]] [[1], [3], [6]] None
   = [[5 / 6], [5 / 2]]"
  by (simp add: normal_equations_coefficients_def Let_def matmul_def T_def dot_def inv_2x2_def
      eye_def numeral_3_eq_3)

theorem constant_weights_same_coefficients_witness:
  "normal_equations_coefficients inv_2x2 [[1, 0], [1, 1], [1, 2]] [[1], [3], [6]]
     (Some (replicate 3 2))
   = normal_equations_coefficients inv_2x2 [[1, 0], [1, 1], [1, 2]] [[1], [3], [6]] None"
proof -
  have X: "is_mat 3 2 [[1, 0], [1, 1], [1, 2]]" and y: "is_mat 3 1 [[1], [3], [6]]"
    by (simp_all add: is_mat_def)
  have n: "(0::nat) < 3" and p: "(0::nat) < 2" and c: "(0::real) < 2" by simp_all
  show ?thesis
    by (rule constant_weights_same_coefficients
          [OF X y n p c example_identity_gram_inverse example_constant_gram_inverse])
qed

end
